theory Spec2Isabelle
  imports Complex_Main "HOL-Library.Word" "HOL-Library.Sublist"
begin

unbundle bit_operations_syntax

section \<open>Data model of msgbox.c\<close>

subsection \<open>System constants and platform parameters\<close>

text \<open>
  Values of the system-header constants the source names (Linux values).
\<close>

definition SOCK_STREAM :: int where "SOCK_STREAM = 1"
definition SOCK_DGRAM :: int where "SOCK_DGRAM = 2"
definition AF_INET :: int where "AF_INET = 2"
definition INADDR_ANY :: "32 word" where "INADDR_ANY = 0"
definition POLLIN :: "16 word" where "POLLIN = 1"

definition msg_tcp :: int where "msg_tcp = SOCK_STREAM"
definition msg_udp :: int where "msg_udp = SOCK_DGRAM"

definition header_len :: nat where "header_len = 8"
definition recv_buffer_len :: nat where "recv_buffer_len = 32768"

text \<open>
  What the build and the C library contribute: whether \<open>DEBUG\<close> is defined (so that
  \<open>assert\<close> is the real macro and not the empty one), the byte order of the host, and
  the library functions \<open>inet_aton\<close> (\<open>None\<close> for its return value 0) and \<open>strtol\<close> in
  base ten (the value and the unparsed rest of the string, where \<open>end_ptr\<close> points).
\<close>

record platform =
  debug :: bool
  little_endian :: bool
  inet_aton :: "string \<Rightarrow> 32 word option"
  strtol :: "string \<Rightarrow> int \<times> string"

subsection \<open>Events, connections, payloads\<close>

text \<open>
  Modelled from the spec: the header \<open>msgbox.h\<close> is not among the sources. It declares
  the event kinds, \<open>msg_Conn\<close> and \<open>msg_Data\<close>; the events are those the spec lists
  (listening, connection-ready, message, request, reply, error, closed), the fields of
  \<open>msg_Conn\<close> and \<open>msg_Data\<close> are the ones \<open>msgbox.c\<close> reads and writes.
\<close>

datatype msg_Event =
  msg_message | msg_request | msg_reply | msg_listening
  | msg_connection_ready | msg_connection_closed | msg_error

text \<open>
  A pointer into a byte buffer: the heap block and the offset inside it. Pointers to
  connections, user contexts and callbacks are plain numbers. The field \<open>num_bytes\<close> is
  a \<open>size_t\<close>, taken to be 64 bits wide.
\<close>

datatype ptr = Null | Ptr nat nat

record msg_Data =
  num_bytes :: "64 word"
  bytes :: ptr

record msg_Conn =
  conn_context :: nat
  callback :: nat
  remote_ip :: "32 word"
  remote_port :: "16 word"
  socket :: int
  reply_id :: "16 word"
  for_listening :: int
  protocol_type :: int

definition msg_no_data :: msg_Data where
  "msg_no_data = \<lparr>num_bytes = 0, bytes = Null\<rparr>"

text \<open>\<open>PendingCall\<close>: \<open>conn\<close> is a \<open>msg_Conn *\<close>, \<open>to_free\<close> a \<open>void *\<close> (\<open>None\<close> is NULL).\<close>

record PendingCall =
  conn :: nat
  event :: msg_Event
  data :: msg_Data
  to_free :: "nat option"

text \<open>Possible values for \<open>message_type\<close>.\<close>

definition one_way :: "16 word" where "one_way = 0"
definition request :: "16 word" where "request = 1"
definition reply :: "16 word" where "reply = 2"
definition close :: "16 word" where "close = 4"

record Header =
  message_type :: "16 word"
  num_packets :: "16 word"
  packet_id :: "16 word"
  hdr_reply_id :: "16 word"

record Address =
  ip :: "32 word"
  port :: "16 word"
  addr_protocol_type :: "16 word"

record ConnStatus =
  last_seen_at :: real

record pollfd =
  fd :: int
  events :: "16 word"
  revents :: "16 word"

record sockaddr_in =
  sin_family :: int
  sin_port :: "16 word"
  sin_addr :: "32 word"

subsection \<open>The heap and the global state\<close>

text \<open>
  A heap block is a byte buffer or a \<open>msg_Conn\<close> object. A byte that was never written
  is \<open>None\<close>. \<open>malloc\<close> hands out block numbers from a counter and is taken to succeed
  (the source never tests its result).
\<close>

datatype heap_obj = Buf "8 word option list" | ConnObj msg_Conn

text \<open>The system calls that send data or create sockets, recorded in the order issued.\<close>

datatype syscall =
  Sys_socket int int int
  | Sys_bind int sockaddr_in
  | Sys_connect int sockaddr_in
  | Sys_send int "8 word option list"
  | Sys_sendto int "8 word option list" sockaddr_in

record state =
  init_done :: bool
  immediate_callbacks :: "PendingCall list"
  poll_fds :: "pollfd list"
  conns :: "nat list"
  conn_status :: "Address \<rightharpoonup> ConnStatus"
  heap :: "nat \<rightharpoonup> heap_obj"
  heap_next :: nat
  sys_trace :: "syscall list"

datatype fault = Assert_failed | Uninitialized_read | Invalid_pointer

definition initial_state :: state where
  "initial_state = \<lparr>init_done = False, immediate_callbacks = [], poll_fds = [], conns = [],
     conn_status = Map.empty, heap = Map.empty, heap_next = 0, sys_trace = []\<rparr>"

definition malloc :: "heap_obj \<Rightarrow> state \<Rightarrow> nat \<times> state" where
  "malloc obj s = (heap_next s, s\<lparr>heap := (heap s)(heap_next s \<mapsto> obj), heap_next := Suc (heap_next s)\<rparr>)"

definition free :: "nat \<Rightarrow> state \<Rightarrow> state" where
  "free b s = s\<lparr>heap := (heap s)(b := None)\<rparr>"

text \<open>Writing bytes into a buffer at an offset; \<open>None\<close> when the range is not inside it.\<close>

definition write_cells :: "nat \<Rightarrow> 8 word list \<Rightarrow> 8 word option list \<Rightarrow> 8 word option list option" where
  "write_cells off bs cells =
     (if off + length bs \<le> length cells
      then Some (take off cells @ map Some bs @ drop (off + length bs) cells)
      else None)"

subsection \<open>Byte order\<close>

definition bswap16 :: "16 word \<Rightarrow> 16 word" where
  "bswap16 x = push_bit 8 x OR drop_bit 8 x"

definition htons :: "platform \<Rightarrow> 16 word \<Rightarrow> 16 word" where
  "htons pf x = (if little_endian pf then bswap16 x else x)"

definition ntohs :: "platform \<Rightarrow> 16 word \<Rightarrow> 16 word" where
  "ntohs pf x = (if little_endian pf then bswap16 x else x)"

text \<open>A \<open>uint16_t\<close> object in memory, in the byte order of the host.\<close>

definition store16 :: "platform \<Rightarrow> 16 word \<Rightarrow> 8 word list" where
  "store16 pf x =
     (if little_endian pf then [ucast x, ucast (drop_bit 8 x)] else [ucast (drop_bit 8 x), ucast x])"

definition load16 :: "platform \<Rightarrow> 8 word \<Rightarrow> 8 word \<Rightarrow> 16 word" where
  "load16 pf b0 b1 =
     (if little_endian pf then push_bit 8 (ucast b1) OR ucast b0 else push_bit 8 (ucast b0) OR ucast b1)"


subsection \<open>The operating system's answers\<close>

text \<open>
  What the kernel answers to the calls of one \<open>read_from_socket\<close>: the bytes
  \<open>recv\<close> with \<open>MSG_PEEK\<close> delivers (\<open>None\<close> for the return value -1), the datagram and
  sender address \<open>recvfrom\<close> delivers, and the text of \<open>strerror(errno)\<close> after each
  failure.
\<close>

record os_read =
  peek_ret :: "8 word list option"
  peek_errno :: string
  recvfrom_ret :: "(8 word list \<times> sockaddr_in) option"
  recvfrom_errno :: string

text \<open>
  The answers to the calls of one \<open>open_socket\<close>: the return value of \<open>socket\<close> and
  of \<open>bind\<close> or \<open>connect\<close>, each with the text of \<open>strerror(errno)\<close>.
\<close>

record os_open =
  socket_ret :: int
  socket_errno :: string
  open_ret :: int
  open_errno :: string

text \<open>
  The eight header bytes as they travel: four 16-bit fields, each with its high byte
  first (the wire format of the spec, network byte order).
\<close>

definition wire_header :: "16 word \<Rightarrow> 16 word \<Rightarrow> 16 word \<Rightarrow> 16 word \<Rightarrow> 8 word list" where
  "wire_header mt np pid rid =
     [ucast (drop_bit 8 mt), ucast mt, ucast (drop_bit 8 np), ucast np,
      ucast (drop_bit 8 pid), ucast pid, ucast (drop_bit 8 rid), ucast rid]"

section \<open>Internal functions\<close>

text \<open>
  A C string is modelled by the list of its characters before the terminating NUL.
\<close>

definition write_bytes :: "ptr \<Rightarrow> 8 word list \<Rightarrow> state \<Rightarrow> fault + state" where
  "write_bytes p bs s =
     (case p of
        Null \<Rightarrow> Inl Invalid_pointer
      | Ptr b off \<Rightarrow>
          (case heap s b of
             Some (Buf cells) \<Rightarrow>
               (case write_cells off bs cells of
                  None \<Rightarrow> Inl Invalid_pointer
                | Some cells' \<Rightarrow> Inr (s\<lparr>heap := (heap s)(b \<mapsto> Buf cells')\<rparr>))
           | _ \<Rightarrow> Inl Invalid_pointer))"

definition msg_new_data_space :: "64 word \<Rightarrow> state \<Rightarrow> msg_Data \<times> state" where
  "msg_new_data_space n s =
     (let (b, s') = malloc (Buf (replicate (unat (n + of_nat header_len)) None)) s
      in (\<lparr>num_bytes = n, bytes = Ptr b header_len\<rparr>, s'))"

definition msg_new_data :: "string \<Rightarrow> state \<Rightarrow> fault + (msg_Data \<times> state)" where
  "msg_new_data str s =
     (let (d, s') = msg_new_data_space (of_nat (length str + 1)) s
      in case write_bytes (bytes d) (map of_char str @ [0]) s' of
           Inl f \<Rightarrow> Inl f
         | Inr s'' \<Rightarrow> Inr (d, s''))"

definition msg_delete_data :: "msg_Data \<Rightarrow> state \<Rightarrow> fault + state" where
  "msg_delete_data d s =
     (case bytes d of
        Ptr b off \<Rightarrow> if off = header_len then Inr (free b s) else Inl Invalid_pointer
      | Null \<Rightarrow> Inl Invalid_pointer)"

text \<open>
  Modelled from the spec: \<open>CArray.h\<close> is not among the sources; the spec gives the
  array by its operations (append, remove, index, iterate). A \<open>CArray\<close> is the list of
  its elements: \<open>CArrayAddElement\<close> and \<open>CArrayNewElement\<close> append, and removing the
  element at index \<open>count - 1\<close> drops the last one.
\<close>

definition CArrayRemoveLast :: "'a list \<Rightarrow> 'a list" where
  "CArrayRemoveLast array = butlast array"

definition remove_last_polling_conn :: "state \<Rightarrow> state" where
  "remove_last_polling_conn s =
     s\<lparr>conns := CArrayRemoveLast (conns s), poll_fds := CArrayRemoveLast (poll_fds s)\<rparr>"

definition init_if_needed :: "state \<Rightarrow> state" where
  "init_if_needed s =
     (if init_done s then s
      else s\<lparr>immediate_callbacks := [], poll_fds := [], conns := [],
             conn_status := Map.empty, init_done := True\<rparr>)"

definition send_callback :: "nat \<Rightarrow> msg_Event \<Rightarrow> msg_Data \<Rightarrow> nat option \<Rightarrow> state \<Rightarrow> state" where
  "send_callback c ev d tf s =
     s\<lparr>immediate_callbacks :=
         immediate_callbacks s @ [\<lparr>conn = c, event = ev, data = d, to_free = tf\<rparr>]\<rparr>"

definition send_callback_error :: "nat \<Rightarrow> string \<Rightarrow> nat option \<Rightarrow> state \<Rightarrow> fault + state" where
  "send_callback_error c msg tf s =
     (case msg_new_data msg s of
        Inl f \<Rightarrow> Inl f
      | Inr (d, s') \<Rightarrow> Inr (send_callback c msg_error d tf s'))"

text \<open>\<open>snprintf\<close> into a buffer of 1024 bytes keeps at most 1023 characters.\<close>

definition snprintf_1024 :: "string \<Rightarrow> string" where
  "snprintf_1024 text = take 1023 text"

text \<open>The argument \<open>errno_text\<close> is \<open>strerror(errno)\<close>.\<close>

definition send_callback_os_error :: "string \<Rightarrow> nat \<Rightarrow> string \<Rightarrow> nat option \<Rightarrow> state \<Rightarrow> fault + state" where
  "send_callback_os_error errno_text c msg tf s =
     send_callback_error c (snprintf_1024 (msg @ '': '' @ errno_text)) tf s"

definition set_sockaddr_for_conn :: "platform \<Rightarrow> msg_Conn \<Rightarrow> string option \<times> sockaddr_in" where
  "set_sockaddr_for_conn pf c =
     (None, \<lparr>sin_family = AF_INET, sin_port = htons pf (remote_port c), sin_addr = remote_ip c\<rparr>)"

subsection \<open>The header codec\<close>

definition set_header ::
  "platform \<Rightarrow> msg_Data \<Rightarrow> 16 word \<Rightarrow> 16 word \<Rightarrow> 16 word \<Rightarrow> 16 word \<Rightarrow> state \<Rightarrow> fault + state" where
  "set_header pf d msg_type n_packets p_id r_id s =
     (case bytes d of
        Null \<Rightarrow> Inl Invalid_pointer
      | Ptr b off \<Rightarrow>
          if off < header_len then Inl Invalid_pointer
          else write_bytes (Ptr b (off - header_len))
                 (store16 pf (htons pf msg_type) @ store16 pf (htons pf n_packets)
                  @ store16 pf (htons pf p_id) @ store16 pf (htons pf r_id)) s)"

text \<open>Reading consecutive \<open>uint16_t\<close> objects; \<open>None\<close> when a byte was never written.\<close>

fun load_shorts :: "platform \<Rightarrow> 8 word option list \<Rightarrow> 16 word list option" where
  "load_shorts pf [] = Some []"
| "load_shorts pf (Some b0 # Some b1 # rest) = map_option ((#) (load16 pf b0 b1)) (load_shorts pf rest)"
| "load_shorts pf _ = None"

text \<open>
  \<open>read_header\<close>: the result \<open>None\<close> is the source's \<open>false\<close>. The \<open>Header\<close> on the caller's
  stack starts unwritten; \<open>recv\<close> fills as many of its 8 bytes as it delivers.
\<close>

definition read_header :: "platform \<Rightarrow> os_read \<Rightarrow> nat \<Rightarrow> state \<Rightarrow> fault + (Header option \<times> state)" where
  "read_header pf os c s =
     (case peek_ret os of
        None \<Rightarrow>
          (case send_callback_os_error (peek_errno os) c ''recv'' None s of
             Inl f \<Rightarrow> Inl f
           | Inr s' \<Rightarrow> Inr (None, s'))
      | Some received \<Rightarrow>
          (let got = take header_len received;
               buffer = map Some got @ replicate (header_len - length got) None
           in case load_shorts pf buffer of
                None \<Rightarrow> Inl Uninitialized_read
              | Some shorts \<Rightarrow>
                  (case map (ntohs pf) shorts of
                     [mt, np, pid, rid] \<Rightarrow>
                       (case heap s c of
                          Some (ConnObj co) \<Rightarrow>
                            Inr (Some \<lparr>message_type = mt, num_packets = np, packet_id = pid, hdr_reply_id = rid\<rparr>,
                                 s\<lparr>heap := (heap s)(c \<mapsto> ConnObj (co\<lparr>reply_id := rid\<rparr>))\<rparr>)
                        | _ \<Rightarrow> Inl Invalid_pointer)
                   | _ \<Rightarrow> Inl Uninitialized_read)))"


subsection \<open>Parsing an address string\<close>

text \<open>The decimal digits that \<open>%zd\<close> prints for a length.\<close>

definition digit_char :: "nat \<Rightarrow> char" where
  "digit_char k = ''0123456789'' ! k"

fun decimal :: "nat \<Rightarrow> string" where
  "decimal n = (if 10 \<le> n then decimal (n div 10) @ [digit_char (n mod 10)] else [digit_char n])"

definition apostrophe :: string where
  "apostrophe = [CHR 0x27]"

text \<open>
  \<open>parse_address_str\<close> returns the error string (\<open>None\<close> is \<open>no_error\<close>) and the
  connection as it has been written up to that point.
\<close>

definition parse_address_str :: "platform \<Rightarrow> string \<Rightarrow> msg_Conn \<Rightarrow> string option \<times> msg_Conn" where
  "parse_address_str pf address c =
     (let prefix_len = 6 in
      if take prefix_len address \<noteq> ''tcp://'' \<and> take prefix_len address \<noteq> ''udp://''
      then (Some (snprintf_1024 (''Failing due to unrecognized prefix: '' @ address)), c)
      else
        let c1 = c\<lparr>protocol_type :=
                     (if take prefix_len address = ''tcp://'' then SOCK_STREAM else SOCK_DGRAM)\<rparr>;
            ip_start = drop prefix_len address
        in
        if CHR '':'' \<notin> set ip_start
        then (Some (snprintf_1024 (''Can'' @ apostrophe @ ''t parse address '' @ apostrophe @ address
                      @ apostrophe @ ''; missing colon after ip'')), c1)
        else
          let ip_len = length (takeWhile (\<lambda>ch. ch \<noteq> CHR '':'') ip_start) in
          if ip_len > 15 \<or> ip_len < 1
          then (Some (snprintf_1024 (''Failing because ip length='' @ decimal ip_len
                        @ ''; expected to be 1-15 (in addresss '' @ apostrophe @ address
                        @ apostrophe @ '')'')), c1)
          else
            let ip_str = take ip_len ip_start in
            (case (if ip_str = ''*'' then Some INADDR_ANY else inet_aton pf ip_str) of
               None \<Rightarrow>
                 (Some (snprintf_1024 (''Couldn'' @ apostrophe @ ''t parse ip string '' @ apostrophe
                          @ ip_str @ apostrophe @ ''.'')), c1)
             | Some ip_val \<Rightarrow>
                 let c2 = c1\<lparr>remote_ip := ip_val\<rparr>;
                     port_str = drop (ip_len + 1) ip_start
                 in
                 if port_str = []
                 then (Some (snprintf_1024 (''Empty port string in address '' @ apostrophe @ address
                               @ apostrophe)), c2)
                 else
                   let (port_val, end_str) = strtol pf port_str;
                       c3 = c2\<lparr>remote_port := of_int port_val\<rparr>
                   in
                   if end_str \<noteq> []
                   then (Some (snprintf_1024 (''Invalid port string in address '' @ apostrophe
                                 @ address @ apostrophe)), c3)
                   else (None, c3)))"

subsection \<open>The peer registry and the read path\<close>

text \<open>
  Modelled from the spec: \<open>CMap.h\<close> is not among the sources; the spec gives the map
  by its operations (find and insert by key). \<open>address_eq\<close> compares the 8 bytes of an
  \<open>Address\<close>, which has no padding, so two keys are equal iff their three fields are.
  The map owns the key and value it stores; the key allocated for a lookup that finds an
  entry is freed at once.
\<close>

definition remote_address_seen :: "nat \<Rightarrow> sockaddr_in \<Rightarrow> state \<Rightarrow> fault + state" where
  "remote_address_seen c sockaddr s =
     (case heap s c of
        Some (ConnObj co) \<Rightarrow>
          (let address = \<lparr>ip = sin_addr sockaddr, port = remote_port co,
                          addr_protocol_type = of_int (protocol_type co)\<rparr>
           in case conn_status s address of
                Some pair \<Rightarrow> Inr s
              | None \<Rightarrow>
                  Inr (send_callback c msg_connection_ready msg_no_data None
                         (s\<lparr>conn_status := (conn_status s)(address \<mapsto> \<lparr>last_seen_at = 0\<rparr>)\<rparr>)))
      | _ \<Rightarrow> Inl Invalid_pointer)"

text \<open>
  The switch of \<open>read_from_socket\<close>. The local \<open>event\<close> is \<open>None\<close> while it is
  unassigned: with the empty \<open>assert\<close> the \<open>default\<close> branch leaves it so, and passing
  it on to \<open>send_callback\<close> then reads an uninitialised variable.
\<close>

definition classify :: "16 word \<Rightarrow> msg_Event option" where
  "classify mt =
     (if mt = one_way then Some msg_message
      else if mt = request then Some msg_request
      else if mt = reply then Some msg_reply
      else None)"

text \<open>The branch \<open>header.num_packets == 1\<close> of \<open>read_from_socket\<close>.\<close>

definition receive_packet :: "platform \<Rightarrow> os_read \<Rightarrow> nat \<Rightarrow> msg_Event option \<Rightarrow> state \<Rightarrow> fault + state" where
  "receive_packet pf os c ev s1 =
     (let (buffer, s2) = malloc (Buf (replicate recv_buffer_len None)) s1 in
      case recvfrom_ret os of
        None \<Rightarrow> send_callback_os_error (recvfrom_errno os) c ''recvfrom'' None s2
      | Some (dgram, remote_sockaddr) \<Rightarrow>
          (let got = take recv_buffer_len dgram;
               s3 = s2\<lparr>heap := (heap s2)(buffer \<mapsto>
                       Buf (map Some got @ replicate (recv_buffer_len - length got) None))\<rparr>;
               d = \<lparr>num_bytes = of_int (int (length got) - int header_len),
                    bytes = Ptr buffer header_len\<rparr>
           in case heap s3 c of
                Some (ConnObj co) \<Rightarrow>
                  (let s4 = s3\<lparr>heap := (heap s3)(c \<mapsto> ConnObj
                              (co\<lparr>remote_ip := sin_addr remote_sockaddr,
                                  remote_port := ntohs pf (sin_port remote_sockaddr)\<rparr>))\<rparr>
                   in case remote_address_seen c remote_sockaddr s4 of
                        Inl f \<Rightarrow> Inl f
                      | Inr s5 \<Rightarrow>
                          (case ev of
                             None \<Rightarrow> Inl Uninitialized_read
                           | Some e \<Rightarrow> Inr (send_callback c e d None s5)))
              | _ \<Rightarrow> Inl Invalid_pointer))"

definition read_from_socket :: "platform \<Rightarrow> os_read \<Rightarrow> int \<Rightarrow> nat \<Rightarrow> state \<Rightarrow> fault + state" where
  "read_from_socket pf os sock c s =
     (case read_header pf os c s of
        Inl f \<Rightarrow> Inl f
      | Inr (None, s1) \<Rightarrow> Inr s1
      | Inr (Some header, s1) \<Rightarrow>
          (let ev = classify (message_type header) in
           if ev = None \<and> debug pf then Inl Assert_failed
           else if num_packets header = 1 then receive_packet pf os c ev s1
           else if debug pf then Inl Assert_failed
           else Inr s1))"

subsection \<open>Opening a socket\<close>

definition new_connection :: "nat \<Rightarrow> nat \<Rightarrow> state \<Rightarrow> nat \<times> state" where
  "new_connection ctx cb s =
     malloc (ConnObj \<lparr>conn_context = ctx, callback = cb, remote_ip = 0, remote_port = 0,
                      socket = 0, reply_id = 0, for_listening = 0, protocol_type = 0\<rparr>) s"

text \<open>
  \<open>setup_sockaddr\<close>: the result \<open>None\<close> is the source's \<open>false\<close>, \<open>Some sockaddr\<close> is
  \<open>true\<close> with the address structure it filled. The \<open>revents\<close> of the new poll entry is
  written by \<open>poll\<close> before it is ever read.
\<close>

definition setup_sockaddr ::
  "platform \<Rightarrow> os_open \<Rightarrow> string \<Rightarrow> nat \<Rightarrow> state \<Rightarrow> fault + (sockaddr_in option \<times> state)" where
  "setup_sockaddr pf os address c s =
     (let use_default_protocol = 0;
          s0 = s\<lparr>sys_trace := sys_trace s @ [Sys_socket AF_INET SOCK_DGRAM use_default_protocol]\<rparr>;
          sock = socket_ret os
      in
      if sock = -1 then
        (case send_callback_os_error (socket_errno os) c ''socket'' (Some c) s0 of
           Inl f \<Rightarrow> Inl f
         | Inr s1 \<Rightarrow> Inr (None, s1))
      else
        (case heap s0 c of
           Some (ConnObj co) \<Rightarrow>
             (let co1 = co\<lparr>socket := sock\<rparr>;
                  (err_msg, co2) = parse_address_str pf address co1;
                  s1 = s0\<lparr>heap := (heap s0)(c \<mapsto> ConnObj co2),
                          conns := conns s0 @ [c],
                          poll_fds := poll_fds s0 @ [\<lparr>fd = sock, events = POLLIN, revents = 0\<rparr>]\<rparr>
              in case err_msg of
                   Some msg \<Rightarrow>
                     (case send_callback_error c msg (Some c) (remove_last_polling_conn s1) of
                        Inl f \<Rightarrow> Inl f
                      | Inr s2 \<Rightarrow> Inr (None, s2))
                 | None \<Rightarrow>
                     Inr (Some \<lparr>sin_family = AF_INET, sin_port = htons pf (remote_port co2),
                                sin_addr = remote_ip co2\<rparr>, s1))
         | _ \<Rightarrow> Inl Invalid_pointer))"

definition open_socket ::
  "platform \<Rightarrow> os_open \<Rightarrow> string \<Rightarrow> nat \<Rightarrow> nat \<Rightarrow> int \<Rightarrow> state \<Rightarrow> fault + state" where
  "open_socket pf os address ctx cb listening s =
     (let (c, s1) = new_connection ctx cb (init_if_needed s) in
      case heap s1 c of
        Some (ConnObj co) \<Rightarrow>
          (let s2 = s1\<lparr>heap := (heap s1)(c \<mapsto> ConnObj (co\<lparr>for_listening := listening\<rparr>))\<rparr> in
           case setup_sockaddr pf os address c s2 of
             Inl f \<Rightarrow> Inl f
           | Inr (None, s3) \<Rightarrow> Inr s3
           | Inr (Some sockaddr, s3) \<Rightarrow>
               (case heap s3 c of
                  Some (ConnObj co3) \<Rightarrow>
                    (let s4 = s3\<lparr>sys_trace := sys_trace s3 @
                                 [if listening \<noteq> 0 then Sys_bind (socket co3) sockaddr
                                  else Sys_connect (socket co3) sockaddr]\<rparr>
                     in
                     if open_ret os = -1 then
                       (case send_callback_os_error (open_errno os) c ''bind'' (Some c) s4 of
                          Inl f \<Rightarrow> Inl f
                        | Inr s5 \<Rightarrow> Inr (remove_last_polling_conn s5))
                     else if listening \<noteq> 0 then
                       Inr (send_callback c msg_listening msg_no_data None s4)
                     else remote_address_seen c sockaddr s4)
                | _ \<Rightarrow> Inl Invalid_pointer))
      | _ \<Rightarrow> Inl Invalid_pointer)"


section \<open>Public functions\<close>

subsection \<open>The run loop\<close>

text \<open>
  What the kernel answers during one \<open>msg_runloop\<close>: the return value of \<open>poll\<close>, the
  \<open>revents\<close> it writes into the entry at each index, and the answers to the
  \<open>read_from_socket\<close> of the entry at each index.
\<close>

record os_tick =
  poll_ret :: int
  poll_revents :: "nat \<Rightarrow> 16 word"
  reads :: "nat \<Rightarrow> os_read"

text \<open>
  A user callback is a function pointer in \<open>msg_Conn\<close>; the table \<open>cbs\<close> gives, for each
  pointer, what the function does to the state of the library when it is called with a
  connection, an event and a payload.
\<close>

type_synonym callbacks = "nat \<Rightarrow> nat \<Rightarrow> msg_Event \<Rightarrow> msg_Data \<Rightarrow> state \<Rightarrow> fault + state"

text \<open>
  The loop over \<open>poll_fds\<close> of the read phase, by index, and the part of \<open>msg_runloop\<close>
  before the flush: \<open>poll\<close>, whose failure only prints a diagnostic, then the reads. The
  arrays are null pointers until \<open>init_if_needed\<close> has run.
\<close>

fun read_ready :: "platform \<Rightarrow> os_tick \<Rightarrow> nat list \<Rightarrow> state \<Rightarrow> fault + state" where
  "read_ready pf io [] s = Inr s"
| "read_ready pf io (i # rest) s =
     (if i < length (poll_fds s) then
        (if revents (poll_fds s ! i) AND POLLIN = 0 then read_ready pf io rest s
         else if i < length (conns s) then
           (case read_from_socket pf (reads io i) (fd (poll_fds s ! i)) (conns s ! i) s of
              Inl f \<Rightarrow> Inl f
            | Inr s' \<Rightarrow> read_ready pf io rest s')
         else Inl Invalid_pointer)
      else Inl Invalid_pointer)"

definition read_phase :: "platform \<Rightarrow> os_tick \<Rightarrow> state \<Rightarrow> fault + state" where
  "read_phase pf io s =
     (if \<not> init_done s then Inl Invalid_pointer
      else
        let num_fds = length (poll_fds s);
            ret = poll_ret io
        in
        if ret = -1 then Inr s
        else
          let s1 = s\<lparr>poll_fds := map (\<lambda>i. (poll_fds s ! i)\<lparr>revents := poll_revents io i\<rparr>) [0..<num_fds]\<rparr> in
          if ret > 0 then read_ready pf io [0..<num_fds] s1
          else Inr s1)"

text \<open>
  The loop over \<open>saved_immediate_callbacks\<close>. It returns the calls whose callback it has
  invoked, in the order of invocation, and the state it ends in.
\<close>

fun flush :: "callbacks \<Rightarrow> PendingCall list \<Rightarrow> state \<Rightarrow> PendingCall list \<times> (fault + state)" where
  "flush cbs [] s = ([], Inr s)"
| "flush cbs (call # rest) s =
     (case heap s (conn call) of
        Some (ConnObj co) \<Rightarrow>
          (case cbs (callback co) (conn call) (event call) (data call) s of
             Inl f \<Rightarrow> ([call], Inl f)
           | Inr s1 \<Rightarrow>
               (let s2 = (case to_free call of None \<Rightarrow> s1 | Some p \<Rightarrow> free p s1);
                    (invoked, result) = flush cbs rest s2
                in (call # invoked, result)))
      | _ \<Rightarrow> ([], Inl Invalid_pointer))"

definition dispatch_phase :: "callbacks \<Rightarrow> state \<Rightarrow> PendingCall list \<times> (fault + state)" where
  "dispatch_phase cbs s =
     (let saved_immediate_callbacks = immediate_callbacks s;
          s1 = s\<lparr>immediate_callbacks := []\<rparr>
      in flush cbs saved_immediate_callbacks s1)"

definition msg_runloop ::
  "platform \<Rightarrow> callbacks \<Rightarrow> os_tick \<Rightarrow> int \<Rightarrow> state \<Rightarrow> PendingCall list \<times> (fault + state)" where
  "msg_runloop pf cbs io timeout_in_ms s =
     (case read_phase pf io s of
        Inl f \<Rightarrow> ([], Inl f)
      | Inr s1 \<Rightarrow> dispatch_phase cbs s1)"

subsection \<open>Listening, connecting, sending\<close>

definition msg_listen :: "platform \<Rightarrow> os_open \<Rightarrow> string \<Rightarrow> nat \<Rightarrow> nat \<Rightarrow> state \<Rightarrow> fault + state" where
  "msg_listen pf os address ctx cb s = open_socket pf os address ctx cb 1 s"

definition msg_connect :: "platform \<Rightarrow> os_open \<Rightarrow> string \<Rightarrow> nat \<Rightarrow> nat \<Rightarrow> state \<Rightarrow> fault + state" where
  "msg_connect pf os address ctx cb s = open_socket pf os address ctx cb 0 s"

definition msg_unlisten :: "nat \<Rightarrow> state \<Rightarrow> state" where
  "msg_unlisten c s = s"

text \<open>The bytes a \<open>send\<close> of \<open>len\<close> bytes from a pointer reads.\<close>

definition read_region :: "ptr \<Rightarrow> nat \<Rightarrow> state \<Rightarrow> 8 word option list option" where
  "read_region p len s =
     (case p of
        Null \<Rightarrow> None
      | Ptr b off \<Rightarrow>
          (case heap s b of
             Some (Buf cells) \<Rightarrow>
               if off + len \<le> length cells then Some (take len (drop off cells)) else None
           | _ \<Rightarrow> None))"

definition ptr_sub :: "ptr \<Rightarrow> nat \<Rightarrow> ptr" where
  "ptr_sub p n = (case p of Ptr b off \<Rightarrow> if n \<le> off then Ptr b (off - n) else Null | Null \<Rightarrow> Null)"

definition msg_disconnect :: "platform \<Rightarrow> nat \<Rightarrow> state \<Rightarrow> fault + state" where
  "msg_disconnect pf c s =
     (let (d, s1) = msg_new_data_space 0 s in
      case set_header pf d close 1 0 0 s1 of
        Inl f \<Rightarrow> Inl f
      | Inr s2 \<Rightarrow>
          (case heap s2 c of
             Some (ConnObj co) \<Rightarrow>
               (case read_region (ptr_sub (bytes d) header_len)
                       (unat (num_bytes d + of_nat header_len)) s2 of
                  None \<Rightarrow> Inl Invalid_pointer
                | Some region \<Rightarrow> Inr (s2\<lparr>sys_trace := sys_trace s2 @ [Sys_send (socket co) region]\<rparr>))
           | _ \<Rightarrow> Inl Invalid_pointer))"

definition msg_send :: "platform \<Rightarrow> nat \<Rightarrow> msg_Data \<Rightarrow> state \<Rightarrow> fault + state" where
  "msg_send pf c d s =
     (case set_header pf d one_way 1 0 0 s of
        Inl f \<Rightarrow> Inl f
      | Inr s1 \<Rightarrow>
          (case heap s1 c of
             Some (ConnObj co) \<Rightarrow>
               if protocol_type co = msg_udp \<and> for_listening co \<noteq> 0 then
                 (case set_sockaddr_for_conn pf co of
                    (Some err_msg, sockaddr) \<Rightarrow> send_callback_error c err_msg None s1
                  | (None, sockaddr) \<Rightarrow>
                      (case read_region (ptr_sub (bytes d) header_len)
                              (unat (num_bytes d + of_nat header_len)) s1 of
                         None \<Rightarrow> Inl Invalid_pointer
                       | Some region \<Rightarrow>
                           Inr (s1\<lparr>sys_trace := sys_trace s1 @ [Sys_sendto (socket co) region sockaddr]\<rparr>)))
               else
                 (case read_region (ptr_sub (bytes d) header_len)
                         (unat (num_bytes d + of_nat header_len)) s1 of
                    None \<Rightarrow> Inl Invalid_pointer
                  | Some region \<Rightarrow>
                      Inr (s1\<lparr>sys_trace := sys_trace s1 @ [Sys_send (socket co) region]\<rparr>))
           | _ \<Rightarrow> Inl Invalid_pointer))"

definition msg_get :: "nat \<Rightarrow> msg_Data \<Rightarrow> nat \<Rightarrow> state \<Rightarrow> state" where
  "msg_get c d reply_context s = s"

section \<open>Auxiliary notions for the statements and proofs\<close>

text \<open>The key under which \<open>remote_address_seen\<close> files a connection and a socket address.\<close>

definition peer_key :: "msg_Conn \<Rightarrow> sockaddr_in \<Rightarrow> Address" where
  "peer_key co sockaddr =
     \<lparr>ip = sin_addr sockaddr, port = remote_port co, addr_protocol_type = of_int (protocol_type co)\<rparr>"

text \<open>Recognising the \<open>socket\<close> calls, and those asking for a stream socket, in the record of system calls.\<close>

fun is_socket_call :: "syscall \<Rightarrow> bool" where
  "is_socket_call (Sys_socket domain type protocol) = True"
| "is_socket_call other = False"

fun is_stream_socket_call :: "syscall \<Rightarrow> bool" where
  "is_stream_socket_call (Sys_socket domain type protocol) = (type = SOCK_STREAM)"
| "is_stream_socket_call other = False"

text \<open>
  A frame as the read phase meets it: the socket, the connection registered for it, and
  what the kernel answers to the calls of \<open>read_from_socket\<close>. \<open>frame_header\<close> is the
  header the peeked bytes carry (four 16-bit fields, high byte first), if there are at
  least 8 of them. A frame is a single-packet frame when its header has a type the
  switch handles and a packet count of 1, and \<open>recvfrom\<close> delivers it; it is receivable
  when moreover its connection exists.
\<close>

definition be16 :: "8 word \<Rightarrow> 8 word \<Rightarrow> 16 word" where
  "be16 hi lo = push_bit 8 (ucast hi) OR ucast lo"

fun wire_fields :: "8 word list \<Rightarrow> Header option" where
  "wire_fields (a0 # a1 # b0 # b1 # c0 # c1 # d0 # d1 # payload) =
     Some \<lparr>message_type = be16 a0 a1, num_packets = be16 b0 b1,
           packet_id = be16 c0 c1, hdr_reply_id = be16 d0 d1\<rparr>"
| "wire_fields short = None"

definition frame_header :: "os_read \<Rightarrow> Header option" where
  "frame_header os = (case peek_ret os of None \<Rightarrow> None | Some received \<Rightarrow> wire_fields received)"

definition single_packet_frame :: "os_read \<Rightarrow> bool" where
  "single_packet_frame os =
     (recvfrom_ret os \<noteq> None \<and>
      (case frame_header os of
         None \<Rightarrow> False
       | Some h \<Rightarrow> classify (message_type h) \<noteq> None \<and> num_packets h = 1))"

type_synonym frame = "int \<times> nat \<times> os_read"

definition receivable :: "state \<Rightarrow> frame \<Rightarrow> bool" where
  "receivable s fr =
     (case fr of (sock, c, os) \<Rightarrow>
        single_packet_frame os \<and> (\<exists>co. heap s c = Some (ConnObj co)))"

text \<open>
  The triple a frame comes from: the key under which \<open>remote_address_seen\<close> files its
  sender, namely the sender's IP, the sender's port in host byte order, and the protocol
  of the receiving connection.
\<close>

definition frame_key :: "platform \<Rightarrow> state \<Rightarrow> frame \<Rightarrow> Address option" where
  "frame_key pf s fr =
     (case fr of (sock, c, os) \<Rightarrow>
        (case heap s c of
           Some (ConnObj co) \<Rightarrow>
             (case recvfrom_ret os of
                Some (dgram, sockaddr) \<Rightarrow>
                  Some \<lparr>ip = sin_addr sockaddr, port = ntohs pf (sin_port sockaddr),
                        addr_protocol_type = of_int (protocol_type co)\<rparr>
              | None \<Rightarrow> None)
         | _ \<Rightarrow> None))"

text \<open>
  A run: \<open>read_from_socket\<close> called for a list of frames, one after the other.
  \<open>ready_events_from pf k\<close> counts the \<open>msg_connection_ready\<close> calls that the reads of the
  frames from the triple \<open>k\<close> append to the queue during the run.
\<close>

definition is_ready_call :: "PendingCall \<Rightarrow> bool" where
  "is_ready_call pc = (event pc = msg_connection_ready)"

fun read_all :: "platform \<Rightarrow> frame list \<Rightarrow> state \<Rightarrow> fault + state" where
  "read_all pf [] s = Inr s"
| "read_all pf ((sock, c, os) # rest) s =
     (case read_from_socket pf os sock c s of
        Inl f \<Rightarrow> Inl f
      | Inr s' \<Rightarrow> read_all pf rest s')"

fun ready_events_from :: "platform \<Rightarrow> Address \<Rightarrow> frame list \<Rightarrow> state \<Rightarrow> nat" where
  "ready_events_from pf k [] s = 0"
| "ready_events_from pf k ((sock, c, os) # rest) s =
     (case read_from_socket pf os sock c s of
        Inl f \<Rightarrow> 0
      | Inr s' \<Rightarrow>
          (if frame_key pf s (sock, c, os) = Some k
           then length (filter is_ready_call
                          (drop (length (immediate_callbacks s)) (immediate_callbacks s')))
           else 0)
          + ready_events_from pf k rest s')"

text \<open>The allocator's invariant: every allocated block lies below its counter.\<close>

definition heap_bounded :: "state \<Rightarrow> bool" where
  "heap_bounded s = (\<forall>b. heap s b \<noteq> None \<longrightarrow> b < heap_next s)"

text \<open>
  Delivery in the spec's words. Delivering one pending call invokes the callback of the
  call's connection with that connection, the event and the payload, and then releases
  the side-buffer if there is one. Delivering a list of calls delivers each once, first
  in first out, every call in the state the one before it left, and stops at the first
  fault.
\<close>

definition deliver :: "callbacks \<Rightarrow> PendingCall \<Rightarrow> state \<Rightarrow> fault + state" where
  "deliver cbs call s =
     (case heap s (conn call) of
        Some (ConnObj co) \<Rightarrow>
          (case cbs (callback co) (conn call) (event call) (data call) s of
             Inl f \<Rightarrow> Inl f
           | Inr s1 \<Rightarrow> Inr (case to_free call of None \<Rightarrow> s1 | Some p \<Rightarrow> free p s1))
      | _ \<Rightarrow> Inl Invalid_pointer)"

fun deliver_all :: "callbacks \<Rightarrow> PendingCall list \<Rightarrow> state \<Rightarrow> fault + state" where
  "deliver_all cbs [] s = Inr s"
| "deliver_all cbs (call # rest) s =
     (case deliver cbs call s of
        Inl f \<Rightarrow> Inl f
      | Inr s' \<Rightarrow> deliver_all cbs rest s')"

text \<open>
  A step that only enqueues: it leaves the library initialised and the queue of pending
  calls it found is an initial segment of the queue it leaves. A table of callbacks is
  \<open>enqueue_only\<close> when every callback that returns is such a step; callbacks that use
  \<open>msg_listen\<close>, \<open>msg_connect\<close> and \<open>msg_send\<close> are, a callback that runs \<open>msg_runloop\<close>
  itself is not.
\<close>

definition grows :: "state \<Rightarrow> state \<Rightarrow> bool" where
  "grows s s' = (init_done s' = init_done s \<and> prefix (immediate_callbacks s) (immediate_callbacks s'))"

definition enqueue_only :: "callbacks \<Rightarrow> bool" where
  "enqueue_only cbs =
     (\<forall>f c ev d st st'. init_done st \<longrightarrow> cbs f c ev d st = Inr st' \<longrightarrow> grows st st')"

text \<open>An error string, if any, fits the 1024-byte buffer it was printed into.\<close>

definition short_error :: "string option \<times> msg_Conn \<Rightarrow> bool" where
  "short_error r = (case fst r of None \<Rightarrow> True | Some m \<Rightarrow> length m \<le> 1023)"

section \<open>Concrete inputs\<close>

text \<open>
  A little-endian debug build whose C library parses the one address used below; one
  listening datagram connection (heap block 0, socket 3) that is registered, and a
  payload buffer holding the string \<open>hi\<close> behind its reserved prefix (heap block 1).
\<close>

definition example_platform :: platform where
  "example_platform =
     \<lparr>debug = True, little_endian = True,
      inet_aton = (\<lambda>str. if str = ''127.0.0.1'' then Some 0x0100007F else None),
      strtol = (\<lambda>str. if str = ''9000'' then (9000, []) else (0, str))\<rparr>"

definition example_conn :: msg_Conn where
  "example_conn =
     \<lparr>conn_context = 0, callback = 0, remote_ip = 0, remote_port = 0,
      socket = 3, reply_id = 0, for_listening = 1, protocol_type = 2\<rparr>"

definition example_cells :: "8 word option list" where
  "example_cells = replicate 8 None @ [Some 104, Some 105, Some 0]"

definition example_data :: msg_Data where
  "example_data = \<lparr>num_bytes = 3, bytes = Ptr 1 8\<rparr>"

definition example_state :: state where
  "example_state =
     \<lparr>init_done = True, immediate_callbacks = [],
      poll_fds = [\<lparr>fd = 3, events = 1, revents = 0\<rparr>], conns = [0],
      conn_status = Map.empty,
      heap = [0 \<mapsto> ConnObj example_conn, 1 \<mapsto> Buf example_cells],
      heap_next = 2, sys_trace = []\<rparr>"

definition example_sockaddr :: sockaddr_in where
  "example_sockaddr = \<lparr>sin_family = 2, sin_port = 0x2823, sin_addr = 0x0100007F\<rparr>"

definition example_read :: os_read where
  "example_read =
     \<lparr>peek_ret = Some (wire_header 0 1 0 0), peek_errno = [],
      recvfrom_ret = Some (wire_header 0 1 0 0 @ [104, 105, 0], example_sockaddr),
      recvfrom_errno = []\<rparr>"

text \<open>
  A kernel that opens sockets without failing, and the state after two \<open>msg_connect\<close>
  calls to the same address.
\<close>

definition example_open :: os_open where
  "example_open = \<lparr>socket_ret = 4, socket_errno = [], open_ret = 0, open_errno = []\<rparr>"



text \<open>
  A table of callbacks in which every callback connects to the example address, and a
  state in which two calls are pending for the listening connection.
\<close>

definition connecting_callbacks :: callbacks where
  "connecting_callbacks =
     (\<lambda>f c ev d st. msg_connect example_platform example_open ''udp://127.0.0.1:9000'' 0 0 st)"

definition waiting_state :: state where
  "waiting_state =
     example_state\<lparr>immediate_callbacks :=
       [\<lparr>conn = 0, event = msg_listening, data = msg_no_data, to_free = None\<rparr>,
        \<lparr>conn = 0, event = msg_message, data = msg_no_data, to_free = None\<rparr>]\<rparr>"

text \<open>
  Callbacks that do nothing, and a tick in which \<open>poll\<close> reports the one registered
  socket readable and the kernel delivers one one-way frame carrying the string \<open>hi\<close>.
\<close>

definition idle_callbacks :: callbacks where
  "idle_callbacks = (\<lambda>f c ev d st. Inr st)"

definition example_tick :: os_tick where
  "example_tick = \<lparr>poll_ret = 1, poll_revents = (\<lambda>i. 1), reads = (\<lambda>i. example_read)\<rparr>"

text \<open>A second sender, on another port, with the same frame.\<close>

definition other_read :: os_read where
  "other_read =
     example_read\<lparr>recvfrom_ret :=
       Some (wire_header 0 1 0 0 @ [104, 105, 0], example_sockaddr\<lparr>sin_port := 0x2923\<rparr>)\<rparr>"

section \<open>Fields of the concrete inputs\<close>

lemma example_state_fields:
  "init_done example_state" "immediate_callbacks example_state = []"
  "poll_fds example_state = [\<lparr>fd = 3, events = 1, revents = 0\<rparr>]" "conns example_state = [0]"
  "conn_status example_state = Map.empty" "heap example_state 0 = Some (ConnObj example_conn)"
  "heap_next example_state = 2" "sys_trace example_state = []"
  by (simp_all add: example_state_def)

lemma example_platform_fields: "debug example_platform" "little_endian example_platform"
  by (simp_all add: example_platform_def)


section \<open>The header codec: encoding and decoding\<close>

lemma be_join:
  "push_bit 8 (ucast (ucast (drop_bit 8 x) :: 8 word)) OR ucast (ucast x :: 8 word) = (x :: 16 word)"
  by (rule bit_word_eqI) (auto simp: bit_simps)

lemma bswap16_high: "(ucast (drop_bit 8 (bswap16 x)) :: 8 word) = ucast x"
  unfolding bswap16_def by (rule bit_word_eqI) (auto simp: bit_simps)

lemma bswap16_low: "(ucast (bswap16 x) :: 8 word) = ucast (drop_bit 8 x)"
  unfolding bswap16_def by (rule bit_word_eqI) (auto simp: bit_simps)

lemma store16_htons: "store16 pf (htons pf x) = [ucast (drop_bit 8 x), ucast x]"
  by (simp add: store16_def htons_def bswap16_high bswap16_low)

lemma bswap16_join:
  "bswap16 (push_bit 8 (ucast (b1 :: 8 word)) OR ucast (b0 :: 8 word)) = push_bit 8 (ucast b0) OR ucast b1"
  unfolding bswap16_def by (rule bit_word_eqI) (auto simp: bit_simps dest: bit_imp_le_length)

lemma ntohs_load16: "ntohs pf (load16 pf b0 b1) = push_bit 8 (ucast b0) OR ucast b1"
  by (simp add: ntohs_def load16_def bswap16_join)

lemma write_cells_before:
  "n \<le> off \<Longrightarrow> off \<le> length cells \<Longrightarrow> length bs = n \<Longrightarrow>
   write_cells (off - n) bs cells = Some (take (off - n) cells @ map Some bs @ drop off cells)"
  by (simp add: write_cells_def)

lemma length_wire_header: "length (wire_header mt np pid rid) = header_len"
  by (simp add: wire_header_def header_len_def)

lemma set_header_writes:
  assumes hb: "heap s b = Some (Buf cells)"
      and d: "bytes d = Ptr b off"
      and lo: "header_len \<le> off" and hi: "off \<le> length cells"
  shows "set_header pf d mt np pid rid s =
           Inr (s\<lparr>heap := (heap s)(b \<mapsto> Buf (take (off - header_len) cells
                   @ map Some (wire_header mt np pid rid) @ drop off cells))\<rparr>)"
proof -
  have "store16 pf (htons pf mt) @ store16 pf (htons pf np) @ store16 pf (htons pf pid)
          @ store16 pf (htons pf rid) = wire_header mt np pid rid"
    by (simp add: store16_htons wire_header_def)
  then show ?thesis
    using assms write_cells_before [OF lo hi length_wire_header, of mt np pid rid]
    by (simp add: set_header_def write_bytes_def)
qed

lemma read_header_decodes:
  assumes rc: "heap t c = Some (ConnObj co)"
  shows "read_header pf (os\<lparr>peek_ret := Some (wire_header mt np pid rid @ payload)\<rparr>) c t
           = Inr (Some \<lparr>message_type = mt, num_packets = np, packet_id = pid, hdr_reply_id = rid\<rparr>,
                  t\<lparr>heap := (heap t)(c \<mapsto> ConnObj (co\<lparr>reply_id := rid\<rparr>))\<rparr>)"
  using assms
  by (simp add: read_header_def wire_header_def header_len_def ntohs_load16 be_join)

text \<open>
  C2. Frame round-trip. A payload whose pointer \<open>bytes d\<close> has the reserved prefix of
  \<open>header_len\<close> bytes before it is framed by \<open>set_header\<close> with a message type, 1 packet,
  packet id 0 and a reply id, on a host of any byte order. The call succeeds; every byte
  from the payload pointer on, and every byte before the prefix, is what it was; the 8
  prefix bytes are all written, and \<open>read_header\<close>, receiving them on a host of any byte
  order, yields exactly the four field values (and stores the reply id in its
  connection).
\<close>

theorem set_header_read_header_roundtrip:
  assumes hb: "heap s b = Some (Buf cells)"
      and d: "bytes d = Ptr b off"
      and lo: "header_len \<le> off" and hi: "off \<le> length cells"
      and rc: "heap t c = Some (ConnObj co)"
  shows "\<exists>s' cells' wire.
           set_header pf d mt 1 0 rid s = Inr s'
         \<and> heap s' b = Some (Buf cells')
         \<and> take header_len (drop (off - header_len) cells') = map Some wire
         \<and> drop off cells' = drop off cells
         \<and> take (off - header_len) cells' = take (off - header_len) cells
         \<and> read_header pf' (os\<lparr>peek_ret := Some wire\<rparr>) c t
             = Inr (Some \<lparr>message_type = mt, num_packets = 1, packet_id = 0, hdr_reply_id = rid\<rparr>,
                    t\<lparr>heap := (heap t)(c \<mapsto> ConnObj (co\<lparr>reply_id := rid\<rparr>))\<rparr>)"
proof -
  let ?wire = "wire_header mt 1 0 rid"
  let ?cells = "take (off - header_len) cells @ map Some ?wire @ drop off cells"
  have len: "length ?wire = header_len" by (rule length_wire_header)
  have w: "set_header pf d mt 1 0 rid s = Inr (s\<lparr>heap := (heap s)(b \<mapsto> Buf ?cells)\<rparr>)"
    by (rule set_header_writes [OF hb d lo hi])
  have pre: "length (take (off - header_len) cells) = off - header_len" using lo hi by simp
  have a: "take header_len (drop (off - header_len) ?cells) = map Some ?wire"
    using pre len by simp
  have b: "drop off ?cells = drop off cells"
    using pre len lo hi by (simp add: min_def)
  have c: "take (off - header_len) ?cells = take (off - header_len) cells"
    using pre by simp
  have r: "read_header pf' (os\<lparr>peek_ret := Some ?wire\<rparr>) c t
             = Inr (Some \<lparr>message_type = mt, num_packets = 1, packet_id = 0, hdr_reply_id = rid\<rparr>,
                    t\<lparr>heap := (heap t)(c \<mapsto> ConnObj (co\<lparr>reply_id := rid\<rparr>))\<rparr>)"
    using read_header_decodes [OF rc, where pf = pf' and os = os and mt = mt and np = 1
        and pid = 0 and rid = rid and payload = "[]"] by simp
  show ?thesis
    using w a b c r
    by (intro exI [of _ "s\<lparr>heap := (heap s)(b \<mapsto> Buf ?cells)\<rparr>"] exI [of _ ?cells] exI [of _ ?wire]) simp
qed

theorem set_header_read_header_roundtrip_witness:
  "heap example_state 1 = Some (Buf example_cells)
   \<and> bytes example_data = Ptr 1 8
   \<and> header_len \<le> 8 \<and> 8 \<le> length example_cells
   \<and> heap example_state 0 = Some (ConnObj example_conn)
   \<and> (\<exists>s' cells' wire.
           set_header example_platform example_data request 1 0 77 example_state = Inr s'
         \<and> heap s' 1 = Some (Buf cells')
         \<and> take header_len (drop (8 - header_len) cells') = map Some wire
         \<and> drop 8 cells' = drop 8 example_cells
         \<and> take (8 - header_len) cells' = take (8 - header_len) example_cells
         \<and> read_header (example_platform\<lparr>little_endian := False\<rparr>) (example_read\<lparr>peek_ret := Some wire\<rparr>) 0 example_state
             = Inr (Some \<lparr>message_type = request, num_packets = 1, packet_id = 0, hdr_reply_id = 77\<rparr>,
                    example_state\<lparr>heap := (heap example_state)(0 \<mapsto> ConnObj (example_conn\<lparr>reply_id := 77\<rparr>))\<rparr>))"
proof -
  have h1: "heap example_state 1 = Some (Buf example_cells)" by (simp add: example_state_def)
  have h2: "bytes example_data = Ptr 1 8" by (simp add: example_data_def)
  have h3: "header_len \<le> 8" by (simp add: header_len_def)
  have h4: "8 \<le> length example_cells" by (simp add: example_cells_def)
  have h5: "heap example_state 0 = Some (ConnObj example_conn)" by (simp add: example_state_def)
  show ?thesis
    using h1 h2 h3 h4 h5 set_header_read_header_roundtrip [OF h1 h2 h3 h4 h5] by simp
qed

section \<open>Error callbacks always succeed\<close>

lemma unat_len_plus_header:
  assumes "n \<le> 1024"
  shows "unat ((of_nat n :: 64 word) + of_nat header_len) = n + header_len"
proof (rule of_nat_inverse)
  show "(word_of_nat (n + header_len) :: 64 word) = of_nat n + of_nat header_len" by simp
  show "n + header_len < 2 ^ LENGTH(64)" using assms by (simp add: header_len_def)
qed

lemma write_cells_fresh:
  "write_cells k bs (replicate (length bs + k) None) = Some (replicate k None @ map Some bs)"
  by (simp add: write_cells_def)

lemma msg_new_data_ok:
  assumes "length str \<le> 1023"
  shows "msg_new_data str s =
           Inr (\<lparr>num_bytes = of_nat (length str + 1), bytes = Ptr (heap_next s) header_len\<rparr>,
                s\<lparr>heap := (heap s)(heap_next s \<mapsto>
                       Buf (replicate header_len None @ map Some (map of_char str @ [0]))),
                  heap_next := Suc (heap_next s)\<rparr>)"
proof -
  let ?bs = "map of_char str @ [0 :: 8 word]"
  have n: "unat ((of_nat (length str + 1) :: 64 word) + of_nat header_len) = length ?bs + header_len"
    using assms unat_len_plus_header [of "length str + 1"] by simp
  show ?thesis
    unfolding msg_new_data_def msg_new_data_space_def malloc_def n
    by (simp add: write_bytes_def write_cells_fresh del: length_append)
qed

lemma send_callback_error_ok:
  assumes "length msg \<le> 1023"
  shows "send_callback_error c msg tf s =
           Inr (s\<lparr>heap := (heap s)(heap_next s \<mapsto>
                       Buf (replicate header_len None @ map Some (map of_char msg @ [0]))),
                  heap_next := Suc (heap_next s),
                  immediate_callbacks := immediate_callbacks s @
                    [\<lparr>conn = c, event = msg_error,
                      data = \<lparr>num_bytes = of_nat (length msg + 1), bytes = Ptr (heap_next s) header_len\<rparr>,
                      to_free = tf\<rparr>]\<rparr>)"
  by (simp add: send_callback_error_def msg_new_data_ok [OF assms] send_callback_def)

lemma length_snprintf_1024: "length (snprintf_1024 text) \<le> 1023"
  by (simp add: snprintf_1024_def)

lemma send_callback_os_error_ok:
  "send_callback_os_error errno_text c msg tf s =
     (let text = snprintf_1024 (msg @ '': '' @ errno_text) in
      Inr (s\<lparr>heap := (heap s)(heap_next s \<mapsto>
                  Buf (replicate header_len None @ map Some (map of_char text @ [0]))),
             heap_next := Suc (heap_next s),
             immediate_callbacks := immediate_callbacks s @
               [\<lparr>conn = c, event = msg_error,
                 data = \<lparr>num_bytes = of_nat (length text + 1), bytes = Ptr (heap_next s) header_len\<rparr>,
                 to_free = tf\<rparr>]\<rparr>))"
  by (simp add: send_callback_os_error_def send_callback_error_ok [OF length_snprintf_1024] Let_def)

lemma short_error_if: "short_error a \<Longrightarrow> short_error b \<Longrightarrow> short_error (if p then a else b)"
  by simp

lemma short_error_option:
  "short_error a \<Longrightarrow> (\<And>v. short_error (f v)) \<Longrightarrow> short_error (case x of None \<Rightarrow> a | Some v \<Rightarrow> f v)"
  by (cases x) simp_all

lemma short_error_prod: "(\<And>a b. short_error (f a b)) \<Longrightarrow> short_error (case x of (a, b) \<Rightarrow> f a b)"
  by (cases x) simp

lemma short_error_snprintf: "short_error (Some (snprintf_1024 text), c)"
  by (simp add: short_error_def length_snprintf_1024)

lemma short_error_none: "short_error (None, c)"
  by (simp add: short_error_def)

lemma short_error_parse: "short_error (parse_address_str pf address c)"
  unfolding parse_address_str_def Let_def
  by (intro short_error_if short_error_option short_error_prod short_error_snprintf short_error_none)

lemma parse_address_str_error_length:
  "parse_address_str pf address c = (Some msg, c') \<Longrightarrow> length msg \<le> 1023"
  using short_error_parse [of pf address c] by (simp add: short_error_def)

lemma remote_address_seen_result:
  assumes "heap s c = Some (ConnObj co)"
  shows "remote_address_seen c sockaddr s =
           Inr (if conn_status s (peer_key co sockaddr) = None
                then send_callback c msg_connection_ready msg_no_data None
                       (s\<lparr>conn_status := (conn_status s)(peer_key co sockaddr \<mapsto> \<lparr>last_seen_at = 0\<rparr>)\<rparr>)
                else s)"
  using assms by (auto simp: remote_address_seen_def peer_key_def Let_def split: option.splits)

section \<open>Opening a socket: the five ways it can end\<close>

lemma setup_sockaddr_socket_failed:
  assumes "socket_ret os = -1"
  shows "setup_sockaddr pf os address c s =
           (case send_callback_os_error (socket_errno os) c ''socket'' (Some c)
                   (s\<lparr>sys_trace := sys_trace s @ [Sys_socket AF_INET SOCK_DGRAM 0]\<rparr>) of
              Inl f \<Rightarrow> Inl f | Inr s1 \<Rightarrow> Inr (None, s1))"
  using assms by (simp add: setup_sockaddr_def Let_def)

lemma setup_sockaddr_parse_failed:
  assumes "socket_ret os \<noteq> -1" and "heap s c = Some (ConnObj co)"
      and "parse_address_str pf address (co\<lparr>socket := socket_ret os\<rparr>) = (Some msg, co2)"
  shows "setup_sockaddr pf os address c s =
           (case send_callback_error c msg (Some c)
                   (s\<lparr>sys_trace := sys_trace s @ [Sys_socket AF_INET SOCK_DGRAM 0],
                      heap := (heap s)(c \<mapsto> ConnObj co2)\<rparr>) of
              Inl f \<Rightarrow> Inl f | Inr s2 \<Rightarrow> Inr (None, s2))"
  using assms
  by (simp add: setup_sockaddr_def Let_def remove_last_polling_conn_def CArrayRemoveLast_def)

lemma setup_sockaddr_ok:
  assumes "socket_ret os \<noteq> -1" and "heap s c = Some (ConnObj co)"
      and "parse_address_str pf address (co\<lparr>socket := socket_ret os\<rparr>) = (None, co2)"
  shows "setup_sockaddr pf os address c s =
           Inr (Some \<lparr>sin_family = AF_INET, sin_port = htons pf (remote_port co2), sin_addr = remote_ip co2\<rparr>,
                s\<lparr>sys_trace := sys_trace s @ [Sys_socket AF_INET SOCK_DGRAM 0],
                  heap := (heap s)(c \<mapsto> ConnObj co2),
                  conns := conns s @ [c],
                  poll_fds := poll_fds s @ [\<lparr>fd = socket_ret os, events = POLLIN, revents = 0\<rparr>]\<rparr>)"
  using assms
  by (simp add: setup_sockaddr_def Let_def)


lemma init_if_needed_fields:
  "heap (init_if_needed s) = heap s" "heap_next (init_if_needed s) = heap_next s"
  "sys_trace (init_if_needed s) = sys_trace s" "init_done (init_if_needed s)"
  by (simp_all add: init_if_needed_def)

lemma open_socket_cases:
  obtains
    (failed) s' d where
      "open_socket pf os address ctx cb listening s = Inr s'"
      "conns s' = conns (init_if_needed s)" "poll_fds s' = poll_fds (init_if_needed s)"
      "immediate_callbacks s' = immediate_callbacks (init_if_needed s) @
         [\<lparr>conn = heap_next s, event = msg_error, data = d, to_free = Some (heap_next s)\<rparr>]"
      "conn_status s' = conn_status (init_if_needed s)" "init_done s'"
      "filter is_socket_call (sys_trace s') =
         filter is_socket_call (sys_trace s) @ [Sys_socket AF_INET SOCK_DGRAM 0]"
  | (listening) s' co where
      "listening \<noteq> 0"
      "open_socket pf os address ctx cb listening s = Inr s'"
      "conns s' = conns (init_if_needed s) @ [heap_next s]"
      "poll_fds s' = poll_fds (init_if_needed s) @ [\<lparr>fd = socket_ret os, events = POLLIN, revents = 0\<rparr>]"
      "immediate_callbacks s' = immediate_callbacks (init_if_needed s) @
         [\<lparr>conn = heap_next s, event = msg_listening, data = msg_no_data, to_free = None\<rparr>]"
      "conn_status s' = conn_status (init_if_needed s)" "init_done s'"
      "filter is_socket_call (sys_trace s') =
         filter is_socket_call (sys_trace s) @ [Sys_socket AF_INET SOCK_DGRAM 0]"
      "heap s' (heap_next s) = Some (ConnObj co)"
  | (connected) s' co where
      "listening = 0"
      "open_socket pf os address ctx cb listening s = Inr s'"
      "conns s' = conns (init_if_needed s) @ [heap_next s]"
      "poll_fds s' = poll_fds (init_if_needed s) @ [\<lparr>fd = socket_ret os, events = POLLIN, revents = 0\<rparr>]"
      "immediate_callbacks s' = immediate_callbacks (init_if_needed s) @
         (if conn_status (init_if_needed s) (peer_key co \<lparr>sin_family = AF_INET, sin_port = htons pf (remote_port co), sin_addr = remote_ip co\<rparr>) = None
          then [\<lparr>conn = heap_next s, event = msg_connection_ready, data = msg_no_data, to_free = None\<rparr>]
          else [])"
      "init_done s'"
      "filter is_socket_call (sys_trace s') =
         filter is_socket_call (sys_trace s) @ [Sys_socket AF_INET SOCK_DGRAM 0]"
      "heap s' (heap_next s) = Some (ConnObj co)"
proof -
  let ?c = "heap_next s"
  let ?s0 = "init_if_needed s"
  define co0 where "co0 = \<lparr>conn_context = ctx, callback = cb, remote_ip = 0, remote_port = 0,
      socket = 0, reply_id = 0, for_listening = listening, protocol_type = 0\<rparr>"
  define s2 where "s2 = ?s0\<lparr>heap_next := Suc ?c, heap := (heap s)(?c \<mapsto> ConnObj co0)\<rparr>"
  have s2_fields: "heap s2 ?c = Some (ConnObj co0)" "conns s2 = conns ?s0" "poll_fds s2 = poll_fds ?s0"
    "immediate_callbacks s2 = immediate_callbacks ?s0" "conn_status s2 = conn_status ?s0"
    "init_done s2" "sys_trace s2 = sys_trace s"
    by (simp_all add: s2_def init_if_needed_fields)
  have os_eq: "open_socket pf os address ctx cb listening s =
      (case setup_sockaddr pf os address ?c s2 of
         Inl f \<Rightarrow> Inl f
       | Inr (None, s3) \<Rightarrow> Inr s3
       | Inr (Some sockaddr, s3) \<Rightarrow>
           (case heap s3 ?c of
              Some (ConnObj co3) \<Rightarrow>
                (let s4 = s3\<lparr>sys_trace := sys_trace s3 @
                             [if listening \<noteq> 0 then Sys_bind (socket co3) sockaddr
                              else Sys_connect (socket co3) sockaddr]\<rparr>
                 in
                 if open_ret os = -1 then
                   (case send_callback_os_error (open_errno os) ?c ''bind'' (Some ?c) s4 of
                      Inl f \<Rightarrow> Inl f
                    | Inr s5 \<Rightarrow> Inr (remove_last_polling_conn s5))
                 else if listening \<noteq> 0 then
                   Inr (send_callback ?c msg_listening msg_no_data None s4)
                 else remote_address_seen ?c sockaddr s4)
            | _ \<Rightarrow> Inl Invalid_pointer))"
    by (simp add: open_socket_def new_connection_def malloc_def Let_def s2_def co0_def
        init_if_needed_fields)
  show thesis
  proof (cases "socket_ret os = -1")
    case True
    note simps = os_eq setup_sockaddr_socket_failed [OF True] send_callback_os_error_ok
      Let_def s2_fields
    show thesis
      by (rule failed, simp add: simps, simp_all add: simps)
  next
    case sock: False
    obtain err co2 where p: "parse_address_str pf address (co0\<lparr>socket := socket_ret os\<rparr>) = (err, co2)"
      by (cases "parse_address_str pf address (co0\<lparr>socket := socket_ret os\<rparr>)")
    show thesis
    proof (cases err)
      case (Some msg)
      have len: "length msg \<le> 1023"
        using p Some parse_address_str_error_length by blast
      note simps = os_eq setup_sockaddr_parse_failed [OF sock s2_fields(1) p [unfolded Some]]
        send_callback_error_ok [OF len] s2_fields
      show thesis
        by (rule failed, simp add: simps, simp_all add: simps)
    next
      case None
      note ok = setup_sockaddr_ok [OF sock s2_fields(1) p [unfolded None]]
      show thesis
      proof (cases "open_ret os = -1")
        case True
        note simps = os_eq ok True send_callback_os_error_ok Let_def s2_fields
          remove_last_polling_conn_def CArrayRemoveLast_def
        show thesis
          by (rule failed, simp add: simps, simp_all add: simps)
      next
        case opened: False
        show thesis
        proof (cases "listening = 0")
          case False
          note simps = os_eq ok opened False send_callback_def Let_def s2_fields
          show thesis
            by (rule listening [of _ co2], simp add: simps, simp add: simps, simp_all add: simps)
        next
          case True
          have l0: "listening \<equiv> 0" using True by simp
          note simps = os_eq [unfolded l0] ok opened True send_callback_def Let_def s2_fields
            remote_address_seen_result [where co = co2]
          show thesis
            by (rule connected [of _ co2], simp add: simps, simp add: simps, simp_all add: simps)
        qed
      qed
    qed
  qed
qed




lemmas open_socket_eval =
  msg_connect_def msg_listen_def open_socket_def new_connection_def malloc_def init_if_needed_def
  setup_sockaddr_def remote_address_seen_def send_callback_def Let_def
  initial_state_def example_open_def AF_INET_def SOCK_DGRAM_def POLLIN_def msg_no_data_def
  htons_def bswap16_def

lemma parse_example:
  "parse_address_str example_platform ''udp://127.0.0.1:9000'' co =
     (None, co\<lparr>protocol_type := 2, remote_ip := 0x0100007F, remote_port := 9000\<rparr>)"
  by (simp add: parse_address_str_def example_platform_def Let_def SOCK_DGRAM_def SOCK_STREAM_def)


section \<open>The socket is always a datagram socket\<close>

lemma stream_socket_calls_unchanged:
  assumes "filter is_socket_call tr' = filter is_socket_call tr @ [Sys_socket AF_INET SOCK_DGRAM 0]"
  shows "filter is_stream_socket_call tr' = filter is_stream_socket_call tr"
proof -
  have imp: "is_stream_socket_call k \<Longrightarrow> is_socket_call k" for k by (cases k) simp_all
  have sub: "filter is_stream_socket_call xs = filter is_stream_socket_call (filter is_socket_call xs)" for xs
    using imp by (induction xs) auto
  have "filter is_stream_socket_call tr' =
      filter is_stream_socket_call (filter is_socket_call tr @ [Sys_socket AF_INET SOCK_DGRAM 0])"
    using assms sub by metis
  also have "\<dots> = filter is_stream_socket_call (filter is_socket_call tr)"
    by (simp add: SOCK_DGRAM_def SOCK_STREAM_def)
  also have "\<dots> = filter is_stream_socket_call tr"
    using sub by simp
  finally show ?thesis .
qed

text \<open>
  C9. For every address string (those that begin with \<open>tcp://\<close> included), every role
  and every answer of the kernel, \<open>open_socket\<close> returns and issues exactly one \<open>socket\<close>
  call, which asks for \<open>AF_INET\<close>, \<open>SOCK_DGRAM\<close>; it issues no \<open>socket\<close> call asking for
  \<open>SOCK_STREAM\<close>. The call does not depend on the address, whose protocol prefix is
  parsed only afterwards.
\<close>

theorem open_socket_creates_datagram_socket:
  "\<exists>s'. open_socket pf os address ctx cb listening s = Inr s'
      \<and> filter is_socket_call (sys_trace s')
          = filter is_socket_call (sys_trace s) @ [Sys_socket AF_INET SOCK_DGRAM 0]
      \<and> filter is_stream_socket_call (sys_trace s') = filter is_stream_socket_call (sys_trace s)"
  by (cases rule: open_socket_cases [of pf os address ctx cb listening s])
    (auto dest: stream_socket_calls_unchanged)

text \<open>
  An address with the \<open>tcp://\<close> prefix: the connection records \<open>SOCK_STREAM\<close> as its
  protocol, and the socket that was created for it is a datagram socket all the same.
\<close>

lemma parse_tcp_example:
  "parse_address_str example_platform ''tcp://127.0.0.1:9000'' co =
     (None, co\<lparr>protocol_type := 1, remote_ip := 0x0100007F, remote_port := 9000\<rparr>)"
  by (simp add: parse_address_str_def example_platform_def Let_def SOCK_DGRAM_def SOCK_STREAM_def)

lemma tcp_address_opens_datagram_socket:
  "\<not> isl (msg_connect example_platform example_open ''tcp://127.0.0.1:9000'' 0 0 initial_state)
   \<and> sys_trace (projr (msg_connect example_platform example_open ''tcp://127.0.0.1:9000'' 0 0 initial_state))
       = [Sys_socket AF_INET SOCK_DGRAM 0,
          Sys_connect 4 \<lparr>sin_family = AF_INET, sin_port = 0x2823, sin_addr = 0x0100007F\<rparr>]
   \<and> map_option (\<lambda>obj. case obj of ConnObj co \<Rightarrow> protocol_type co | Buf cells \<Rightarrow> 0)
         (heap (projr (msg_connect example_platform example_open ''tcp://127.0.0.1:9000'' 0 0 initial_state)) 0)
       = Some SOCK_STREAM"
  by (simp add: open_socket_eval parse_tcp_example SOCK_STREAM_def example_platform_fields)

section \<open>Sending\<close>

lemma unat_plus_header_len:
  assumes "unat (n :: 64 word) + header_len < 2 ^ 64"
  shows "unat (n + of_nat header_len) = unat n + header_len"
proof -
  have "unat (of_nat header_len :: 64 word) = header_len"
    by (simp add: header_len_def)
  then show ?thesis
    using assms by (simp add: unat_word_ariths)
qed

lemma read_region_framed:
  assumes buf: "heap s b = Some (Buf (take (off - header_len) cells @ map Some wire @ drop off cells))"
      and len: "length wire = header_len"
      and lo: "header_len \<le> off" and hi: "off + n \<le> length cells"
  shows "read_region (ptr_sub (Ptr b off) header_len) (n + header_len) s
           = Some (map Some wire @ take n (drop off cells))"
proof -
  have pre: "length (take (off - header_len) cells) = off - header_len" using lo hi by simp
  have "off - header_len + (n + header_len) \<le> length (take (off - header_len) cells @ map Some wire @ drop off cells)"
    using lo hi len by simp
  moreover have "take (n + header_len) (drop (off - header_len)
                   (take (off - header_len) cells @ map Some wire @ drop off cells))
                 = map Some wire @ take n (drop off cells)"
    using pre len by simp
  ultimately show ?thesis
    using buf lo by (simp add: read_region_def ptr_sub_def)
qed

text \<open>
  C8. \<open>msg_send\<close> on a connection and a payload with its reserved prefix (and a length
  that stays inside the buffer) returns; it writes the header fields one-way, 1 packet,
  packet id 0, reply id 0 into the 8 bytes before the payload and changes no other byte;
  it issues exactly one system call, which transmits these 8 bytes followed by the
  \<open>num_bytes\<close> payload bytes. That call is \<open>sendto\<close>, to the connection's remote address,
  exactly when the connection's protocol is \<open>msg_udp\<close> and it is for listening, and the
  plain \<open>send\<close> in every other case. Nothing is enqueued.
\<close>

theorem msg_send_frames_and_transmits:
  assumes cn: "heap s c = Some (ConnObj co)"
      and buf: "heap s b = Some (Buf cells)"
      and d: "bytes d = Ptr b off"
      and lo: "header_len \<le> off"
      and hi: "off + unat (num_bytes d) \<le> length cells"
      and nowrap: "unat (num_bytes d) + header_len < 2 ^ 64"
  shows "msg_send pf c d s =
           Inr (s\<lparr>heap := (heap s)(b \<mapsto> Buf (take (off - header_len) cells
                            @ map Some (wire_header one_way 1 0 0) @ drop off cells)),
                  sys_trace := sys_trace s @
                    [if protocol_type co = msg_udp \<and> for_listening co \<noteq> 0
                     then Sys_sendto (socket co)
                            (map Some (wire_header one_way 1 0 0) @ take (unat (num_bytes d)) (drop off cells))
                            \<lparr>sin_family = AF_INET, sin_port = htons pf (remote_port co),
                             sin_addr = remote_ip co\<rparr>
                     else Sys_send (socket co)
                            (map Some (wire_header one_way 1 0 0) @ take (unat (num_bytes d)) (drop off cells))]\<rparr>)"
proof -
  let ?wire = "wire_header one_way 1 0 0"
  let ?s1 = "s\<lparr>heap := (heap s)(b \<mapsto> Buf (take (off - header_len) cells @ map Some ?wire @ drop off cells))\<rparr>"
  have hi': "off \<le> length cells" using hi by simp
  have w: "set_header pf d one_way 1 0 0 s = Inr ?s1"
    by (rule set_header_writes [OF buf d lo hi'])
  have ne: "b \<noteq> c" using cn buf by auto
  have c1: "heap ?s1 c = Some (ConnObj co)" using cn ne by simp
  have b1: "heap ?s1 b = Some (Buf (take (off - header_len) cells @ map Some ?wire @ drop off cells))"
    by simp
  have n: "unat (num_bytes d + of_nat header_len) = unat (num_bytes d) + header_len"
    by (rule unat_plus_header_len [OF nowrap])
  have r: "read_region (ptr_sub (bytes d) header_len) (unat (num_bytes d + of_nat header_len)) ?s1
             = Some (map Some ?wire @ take (unat (num_bytes d)) (drop off cells))"
    unfolding n d by (rule read_region_framed [OF b1 length_wire_header lo hi])
  show ?thesis
    unfolding msg_send_def w using c1 r
    by (simp add: set_sockaddr_for_conn_def)
qed

theorem msg_send_frames_and_transmits_witness:
  "heap example_state 0 = Some (ConnObj example_conn)
   \<and> heap example_state 1 = Some (Buf example_cells)
   \<and> bytes example_data = Ptr 1 8
   \<and> header_len \<le> 8
   \<and> 8 + unat (num_bytes example_data) \<le> length example_cells
   \<and> unat (num_bytes example_data) + header_len < 2 ^ 64
   \<and> msg_send example_platform 0 example_data example_state =
        Inr (example_state\<lparr>heap := (heap example_state)
                 (1 \<mapsto> Buf (map Some [0, 0, 0, 1, 0, 0, 0, 0, 104, 105, 0])),
               sys_trace := [Sys_sendto 3 (map Some [0, 0, 0, 1, 0, 0, 0, 0, 104, 105, 0])
                               \<lparr>sin_family = 2, sin_port = 0, sin_addr = 0\<rparr>]\<rparr>)"
proof -
  have h1: "heap example_state 0 = Some (ConnObj example_conn)" by (simp add: example_state_def)
  have h2: "heap example_state 1 = Some (Buf example_cells)" by (simp add: example_state_def)
  have h3: "bytes example_data = Ptr 1 8" by (simp add: example_data_def)
  have h4: "header_len \<le> 8" by (simp add: header_len_def)
  have h5: "8 + unat (num_bytes example_data) \<le> length example_cells"
    by (simp add: example_data_def example_cells_def)
  have h6: "unat (num_bytes example_data) + header_len < 2 ^ 64"
    by (simp add: example_data_def header_len_def)
  have "msg_send example_platform 0 example_data example_state =
        Inr (example_state\<lparr>heap := (heap example_state)
                 (1 \<mapsto> Buf (map Some [0, 0, 0, 1, 0, 0, 0, 0, 104, 105, 0])),
               sys_trace := [Sys_sendto 3 (map Some [0, 0, 0, 1, 0, 0, 0, 0, 104, 105, 0])
                               \<lparr>sin_family = 2, sin_port = 0, sin_addr = 0\<rparr>]\<rparr>)"
    using msg_send_frames_and_transmits [OF h1 h2 h3 h4 h5 h6, of example_platform]
    by (simp add: example_conn_def example_cells_def example_data_def example_state_def
        example_platform_def wire_header_def one_way_def header_len_def msg_udp_def
        SOCK_DGRAM_def AF_INET_def htons_def bswap16_def)
  with h1 h2 h3 h4 h5 h6 show ?thesis by blast
qed

section \<open>The read path: assertions and receive failures\<close>






lemma read_from_socket_after_header:
  assumes "read_header pf os c s = Inr (Some h, s1)"
  shows "read_from_socket pf os sock c s =
          (if classify (message_type h) = None \<and> debug pf then Inl Assert_failed
           else if num_packets h = 1 then receive_packet pf os c (classify (message_type h)) s1
           else if debug pf then Inl Assert_failed
           else Inr s1)"
  using assms by (simp add: read_from_socket_def Let_def)




lemma read_region_error_text:
  assumes "heap s b = Some (Buf (replicate header_len None @ map Some (map of_char text @ [0])))"
  shows "read_region (Ptr b header_len) (length text + 1) s = Some (map Some (map of_char text @ [0]))"
  using assms by (simp add: read_region_def)

lemma read_header_peek_failed:
  assumes "peek_ret os = None"
  shows "read_header pf os c s =
          (case send_callback_os_error (peek_errno os) c ''recv'' None s of
             Inl f \<Rightarrow> Inl f | Inr s' \<Rightarrow> Inr (None, s'))"
  using assms by (simp add: read_header_def)

lemma read_header_keeps_arrays:
  assumes "read_header pf os c s = Inr (Some h, s1)"
  shows "conns s1 = conns s \<and> poll_fds s1 = poll_fds s \<and> immediate_callbacks s1 = immediate_callbacks s
         \<and> peek_ret os \<noteq> None"
  using assms
  by (auto simp: read_header_def Let_def send_callback_os_error_ok
      split: option.splits list.splits heap_obj.splits)

text \<open>
  C7. A receive failure in \<open>read_from_socket\<close> is either the failure of the peeking
  \<open>recv\<close> of \<open>read_header\<close>, or the failure of \<open>recvfrom\<close> once a header has been read
  that passes the switch and has a packet count of 1. In both cases the read returns,
  \<open>conns\<close> and \<open>poll_fds\<close> are what they were, and exactly one pending call has been
  appended: a \<open>msg_error\<close> event for this connection whose payload is the static
  description (\<open>recv\<close>, \<open>recvfrom\<close>), a colon and a space, and the text of
  \<open>strerror(errno)\<close>, cut to the 1023 characters of the buffer and NUL-terminated.
\<close>

theorem receive_failure_reports_and_keeps_connection:
  assumes fails: "peek_ret os = None
            \<or> (\<exists>h s1. read_header pf os c s = Inr (Some h, s1)
                  \<and> (classify (message_type h) \<noteq> None \<or> \<not> debug pf)
                  \<and> num_packets h = 1 \<and> recvfrom_ret os = None)"
  shows "\<exists>s' d text.
           read_from_socket pf os sock c s = Inr s'
         \<and> conns s' = conns s \<and> poll_fds s' = poll_fds s
         \<and> immediate_callbacks s' = immediate_callbacks s
              @ [\<lparr>conn = c, event = msg_error, data = d, to_free = None\<rparr>]
         \<and> text = (if peek_ret os = None
                    then snprintf_1024 (''recv'' @ '': '' @ peek_errno os)
                    else snprintf_1024 (''recvfrom'' @ '': '' @ recvfrom_errno os))
         \<and> num_bytes d = of_nat (length text + 1)
         \<and> read_region (bytes d) (length text + 1) s' = Some (map Some (map of_char text @ [0]))"
proof (cases "peek_ret os = None")
  case pk: True
  let ?text = "snprintf_1024 (''recv'' @ '': '' @ peek_errno os)"
  let ?d = "\<lparr>num_bytes = of_nat (length ?text + 1), bytes = Ptr (heap_next s) header_len\<rparr>"
  let ?s' = "s\<lparr>heap := (heap s)(heap_next s \<mapsto>
                  Buf (replicate header_len None @ map Some (map of_char ?text @ [0]))),
             heap_next := Suc (heap_next s),
             immediate_callbacks := immediate_callbacks s @
               [\<lparr>conn = c, event = msg_error, data = ?d, to_free = None\<rparr>]\<rparr>"
  have r: "read_from_socket pf os sock c s = Inr ?s'"
    by (simp add: read_from_socket_def read_header_peek_failed [OF pk] send_callback_os_error_ok Let_def)
  have rr: "read_region (Ptr (heap_next s) header_len) (length ?text + 1) ?s'
              = Some (map Some (map of_char ?text @ [0]))"
    by (rule read_region_error_text) simp
  show ?thesis
    apply (rule exI [of _ ?s'], rule exI [of _ ?d], rule exI [of _ ?text])
    using r rr pk by simp
next
  case False
  with fails have "\<exists>h s1. read_header pf os c s = Inr (Some h, s1)
                  \<and> (classify (message_type h) \<noteq> None \<or> \<not> debug pf)
                  \<and> num_packets h = 1 \<and> recvfrom_ret os = None"
    by simp
  then obtain h s1 where all: "read_header pf os c s = Inr (Some h, s1)
                  \<and> (classify (message_type h) \<noteq> None \<or> \<not> debug pf)
                  \<and> num_packets h = 1 \<and> recvfrom_ret os = None"
    by (elim exE)
  have hdr: "read_header pf os c s = Inr (Some h, s1)"
    and ok: "classify (message_type h) \<noteq> None \<or> \<not> debug pf"
    and one: "num_packets h = 1" and rf: "recvfrom_ret os = None"
    using all by simp_all
  note keep = read_header_keeps_arrays [OF hdr]
  let ?text = "snprintf_1024 (''recvfrom'' @ '': '' @ recvfrom_errno os)"
  let ?b = "Suc (heap_next s1)"
  let ?d = "\<lparr>num_bytes = of_nat (length ?text + 1), bytes = Ptr ?b header_len\<rparr>"
  let ?s2 = "s1\<lparr>heap := (heap s1)(heap_next s1 \<mapsto> Buf (replicate recv_buffer_len None)),
               heap_next := Suc (heap_next s1)\<rparr>"
  let ?s' = "?s2\<lparr>heap := (heap ?s2)(?b \<mapsto>
                  Buf (replicate header_len None @ map Some (map of_char ?text @ [0]))),
             heap_next := Suc ?b,
             immediate_callbacks := immediate_callbacks s1 @
               [\<lparr>conn = c, event = msg_error, data = ?d, to_free = None\<rparr>]\<rparr>"
  have r: "read_from_socket pf os sock c s = Inr ?s'"
    unfolding read_from_socket_after_header [OF hdr]
    using ok one rf
    by (auto simp add: receive_packet_def malloc_def send_callback_os_error_ok Let_def)
  have rr: "read_region (Ptr ?b header_len) (length ?text + 1) ?s'
              = Some (map Some (map of_char ?text @ [0]))"
    by (rule read_region_error_text) simp
  show ?thesis
    apply (rule exI [of _ ?s'], rule exI [of _ ?d], rule exI [of _ ?text])
    using r rr keep by auto
qed

theorem receive_failure_reports_and_keeps_connection_witness:
  "(peek_ret (example_read\<lparr>peek_ret := None, peek_errno := ''Connection refused''\<rparr>) = None
      \<or> (\<exists>h s1. read_header example_platform
                     (example_read\<lparr>peek_ret := None, peek_errno := ''Connection refused''\<rparr>) 0 example_state
                     = Inr (Some h, s1)
            \<and> (classify (message_type h) \<noteq> None \<or> \<not> debug example_platform)
            \<and> num_packets h = 1
            \<and> recvfrom_ret (example_read\<lparr>peek_ret := None, peek_errno := ''Connection refused''\<rparr>) = None))
   \<and> (\<exists>s' d.
           read_from_socket example_platform
             (example_read\<lparr>peek_ret := None, peek_errno := ''Connection refused''\<rparr>) 3 0 example_state = Inr s'
         \<and> conns s' = conns example_state \<and> poll_fds s' = poll_fds example_state
         \<and> immediate_callbacks s' = immediate_callbacks example_state
              @ [\<lparr>conn = 0, event = msg_error, data = d, to_free = None\<rparr>]
         \<and> num_bytes d = of_nat (length ''recv: Connection refused'' + 1)
         \<and> read_region (bytes d) (length ''recv: Connection refused'' + 1) s'
             = Some (map Some (map of_char ''recv: Connection refused'' @ [0])))"
proof -
  let ?os = "example_read\<lparr>peek_ret := None, peek_errno := ''Connection refused''\<rparr>"
  have h: "peek_ret ?os = None
      \<or> (\<exists>h s1. read_header example_platform ?os 0 example_state = Inr (Some h, s1)
            \<and> (classify (message_type h) \<noteq> None \<or> \<not> debug example_platform)
            \<and> num_packets h = 1 \<and> recvfrom_ret ?os = None)"
    by simp
  have tx_eq: "(if peek_ret ?os = None
               then snprintf_1024 (''recv'' @ '': '' @ peek_errno ?os)
               else snprintf_1024 (''recvfrom'' @ '': '' @ recvfrom_errno ?os))
              = ''recv: Connection refused''"
    by (simp add: snprintf_1024_def)
  obtain s' d tx where r:
      "read_from_socket example_platform ?os 3 0 example_state = Inr s'"
      "conns s' = conns example_state" "poll_fds s' = poll_fds example_state"
      "immediate_callbacks s' = immediate_callbacks example_state
              @ [\<lparr>conn = 0, event = msg_error, data = d, to_free = None\<rparr>]"
      "tx = (if peek_ret ?os = None
               then snprintf_1024 (''recv'' @ '': '' @ peek_errno ?os)
               else snprintf_1024 (''recvfrom'' @ '': '' @ recvfrom_errno ?os))"
      "num_bytes d = of_nat (length tx + 1)"
      "read_region (bytes d) (length tx + 1) s' = Some (map Some (map of_char tx @ [0]))"
    using receive_failure_reports_and_keeps_connection [OF h, of 3] by blast
  have "tx = ''recv: Connection refused''" using r(5) tx_eq by simp
  then show ?thesis
    using h r by blast
qed

section \<open>The peer registry: one announcement per peer\<close>

lemma read_header_frame:
  assumes rc: "heap t c = Some (ConnObj co)" and fh: "frame_header os = Some h"
  shows "read_header pf os c t
           = Inr (Some h, t\<lparr>heap := (heap t)(c \<mapsto> ConnObj (co\<lparr>reply_id := hdr_reply_id h\<rparr>))\<rparr>)"
proof -
  from fh obtain received where pk: "peek_ret os = Some received" and wf: "wire_fields received = Some h"
    by (auto simp: frame_header_def split: option.splits)
  from wf obtain a0 a1 b0 b1 c0 c1 d0 d1 payload where
    r: "received = a0 # a1 # b0 # b1 # c0 # c1 # d0 # d1 # payload"
    and h: "h = \<lparr>message_type = be16 a0 a1, num_packets = be16 b0 b1,
                 packet_id = be16 c0 c1, hdr_reply_id = be16 d0 d1\<rparr>"
    by (elim wire_fields.elims) auto
  show ?thesis
    using rc pk unfolding r h
    by (simp add: read_header_def header_len_def ntohs_load16 be16_def)
qed

lemma read_from_socket_frame:
  assumes hb: "heap_bounded s"
      and rc: "heap s c = Some (ConnObj co)"
      and fh: "frame_header os = Some h"
      and cl: "classify (message_type h) = Some e"
      and np: "num_packets h = 1"
      and rf: "recvfrom_ret os = Some (dgram, sa)"
  shows "read_from_socket pf os sock c s =
           (let k = \<lparr>ip = sin_addr sa, port = ntohs pf (sin_port sa),
                     addr_protocol_type = of_int (protocol_type co)\<rparr>;
                got = take recv_buffer_len dgram;
                s4 = s\<lparr>heap := (heap s)
                         (heap_next s \<mapsto> Buf (map Some got @ replicate (recv_buffer_len - length got) None),
                          c \<mapsto> ConnObj (co\<lparr>reply_id := hdr_reply_id h, remote_ip := sin_addr sa,
                                            remote_port := ntohs pf (sin_port sa)\<rparr>)),
                       heap_next := Suc (heap_next s)\<rparr>;
                d = \<lparr>num_bytes = of_int (int (length got) - int header_len),
                     bytes = Ptr (heap_next s) header_len\<rparr>
            in Inr (s4\<lparr>conn_status := (if conn_status s k = None
                                         then (conn_status s)(k \<mapsto> \<lparr>last_seen_at = 0\<rparr>)
                                         else conn_status s),
                       immediate_callbacks := immediate_callbacks s
                         @ (if conn_status s k = None
                            then [\<lparr>conn = c, event = msg_connection_ready, data = msg_no_data, to_free = None\<rparr>]
                            else [])
                         @ [\<lparr>conn = c, event = e, data = d, to_free = None\<rparr>]\<rparr>))"
proof -
  have ne: "c \<noteq> heap_next s"
    using hb rc by (auto simp: heap_bounded_def)
  note rh = read_header_frame [OF rc fh, of pf]
  show ?thesis
    using ne cl np rf
    by (auto simp add: read_from_socket_after_header [OF rh] receive_packet_def malloc_def Let_def
        remote_address_seen_def send_callback_def fun_upd_twist split: option.splits)
qed


lemma classify_not_ready: "classify mt = Some e \<Longrightarrow> e \<noteq> msg_connection_ready"
  by (auto simp: classify_def split: if_splits)

lemma frame_step:
  assumes hb: "heap_bounded s" and rcv: "receivable s (sock, c, os)"
  obtains s' where
    "read_from_socket pf os sock c s = Inr s'"
    "heap_bounded s'"
    "\<And>fr. frame_key pf s' fr = frame_key pf s fr"
    "\<And>fr. receivable s' fr = receivable s fr"
    "\<And>k. conn_status s k \<noteq> None \<Longrightarrow> conn_status s' k \<noteq> None"
    "\<And>k. frame_key pf s (sock, c, os) \<noteq> Some k \<Longrightarrow> conn_status s' k = conn_status s k"
    "\<And>k. frame_key pf s (sock, c, os) = Some k \<Longrightarrow> conn_status s' k \<noteq> None"
    "\<And>k. frame_key pf s (sock, c, os) = Some k \<Longrightarrow>
        length (filter is_ready_call (drop (length (immediate_callbacks s)) (immediate_callbacks s')))
          = (if conn_status s k = None then 1 else 0)"
proof -
  from rcv obtain co h e dgram sa where
    rc: "heap s c = Some (ConnObj co)" and fh: "frame_header os = Some h"
    and cl: "classify (message_type h) = Some e" and np: "num_packets h = 1"
    and rf: "recvfrom_ret os = Some (dgram, sa)"
    by (auto simp: receivable_def single_packet_frame_def split: option.splits)
  let ?k = "\<lparr>ip = sin_addr sa, port = ntohs pf (sin_port sa),
             addr_protocol_type = of_int (protocol_type co)\<rparr>"
  have key: "frame_key pf s (sock, c, os) = Some ?k"
    using rc rf by (simp add: frame_key_def)
  have ne: "c \<noteq> heap_next s" and fresh: "heap s (heap_next s) = None"
    using hb rc by (auto simp: heap_bounded_def)
  have nr: "e \<noteq> msg_connection_ready" using cl by (rule classify_not_ready)
  note step = read_from_socket_frame [OF hb rc fh cl np rf, of pf sock]
  obtain s' where s': "read_from_socket pf os sock c s = Inr s'" using step by (simp add: Let_def)
  have heap': "heap s' = (heap s)
       (heap_next s \<mapsto> Buf (map Some (take recv_buffer_len dgram)
                              @ replicate (recv_buffer_len - length (take recv_buffer_len dgram)) None),
        c \<mapsto> ConnObj (co\<lparr>reply_id := hdr_reply_id h, remote_ip := sin_addr sa,
                          remote_port := ntohs pf (sin_port sa)\<rparr>))"
    and next': "heap_next s' = Suc (heap_next s)"
    and status': "conn_status s' = (if conn_status s ?k = None
                                     then (conn_status s)(?k \<mapsto> \<lparr>last_seen_at = 0\<rparr>)
                                     else conn_status s)"
    and queue': "immediate_callbacks s' = immediate_callbacks s
                   @ (if conn_status s ?k = None
                      then [\<lparr>conn = c, event = msg_connection_ready, data = msg_no_data, to_free = None\<rparr>]
                      else [])
                   @ [\<lparr>conn = c, event = e,
                       data = \<lparr>num_bytes = of_int (int (length (take recv_buffer_len dgram)) - int header_len),
                               bytes = Ptr (heap_next s) header_len\<rparr>, to_free = None\<rparr>]"
    using step s' by (auto simp: Let_def)
  have conn_same: "(case heap s' b of Some (ConnObj co') \<Rightarrow> Some (protocol_type co') | _ \<Rightarrow> None)
                 = (case heap s b of Some (ConnObj co') \<Rightarrow> Some (protocol_type co') | _ \<Rightarrow> None)" for b
    using rc ne fresh by (simp add: heap')
  show thesis
  proof (rule that [OF s'])
    show "heap_bounded s'"
      using hb rc by (auto simp: heap_bounded_def heap' next' less_Suc_eq split: if_splits)
    show "frame_key pf s' fr = frame_key pf s fr" for fr
      using conn_same [of "fst (snd fr)"]
      by (cases fr) (auto simp: frame_key_def split: option.splits heap_obj.splits)
    show "receivable s' fr = receivable s fr" for fr
      using conn_same [of "fst (snd fr)"]
      by (cases fr) (auto simp: receivable_def split: option.splits heap_obj.splits)
    show "conn_status s k \<noteq> None \<Longrightarrow> conn_status s' k \<noteq> None" for k
      by (simp add: status')
    show "frame_key pf s (sock, c, os) \<noteq> Some k \<Longrightarrow> conn_status s' k = conn_status s k" for k
      using key by (auto simp: status')
    show "frame_key pf s (sock, c, os) = Some k \<Longrightarrow> conn_status s' k \<noteq> None" for k
      using key by (auto simp: status')
    show "frame_key pf s (sock, c, os) = Some k \<Longrightarrow>
        length (filter is_ready_call (drop (length (immediate_callbacks s)) (immediate_callbacks s')))
          = (if conn_status s k = None then 1 else 0)" for k
      using key nr by (auto simp: queue' is_ready_call_def)
  qed
qed

lemma known_sender_run:
  assumes "heap_bounded s" and "\<forall>fr \<in> set frames. receivable s fr" and "conn_status s k \<noteq> None"
  shows "\<exists>s'. read_all pf frames s = Inr s' \<and> heap_bounded s' \<and> conn_status s' k \<noteq> None
            \<and> (\<forall>fr. frame_key pf s' fr = frame_key pf s fr)
            \<and> (\<forall>fr. receivable s' fr = receivable s fr)
            \<and> ready_events_from pf k frames s = 0"
  using assms
proof (induction frames arbitrary: s)
  case Nil
  then show ?case by simp
next
  case (Cons fr frames)
  obtain sock c os where fr: "fr = (sock, c, os)" by (cases fr)
  have rcv: "receivable s (sock, c, os)" using Cons.prems(2) fr by simp
  obtain s1 where s1: "read_from_socket pf os sock c s = Inr s1" "heap_bounded s1"
      "\<And>fr. frame_key pf s1 fr = frame_key pf s fr"
      "\<And>fr. receivable s1 fr = receivable s fr"
      "conn_status s1 k \<noteq> None"
      "frame_key pf s (sock, c, os) = Some k \<Longrightarrow>
         length (filter is_ready_call (drop (length (immediate_callbacks s)) (immediate_callbacks s1))) = 0"
    using frame_step [OF Cons.prems(1) rcv, of pf] Cons.prems(3) by metis
  have "\<forall>fr \<in> set frames. receivable s1 fr" using Cons.prems(2) s1(4) by simp
  from Cons.IH [OF s1(2) this s1(5)] obtain s' where
    "read_all pf frames s1 = Inr s'" "heap_bounded s'" "conn_status s' k \<noteq> None"
    "\<forall>fr. frame_key pf s' fr = frame_key pf s1 fr" "\<forall>fr. receivable s' fr = receivable s1 fr"
    "ready_events_from pf k frames s1 = 0"
    by blast
  then show ?case using s1 fr by auto
qed

text \<open>
  C3. Take any run of receivable frames read by \<open>read_from_socket\<close>, in a state that
  satisfies the allocator's invariant, and a triple \<open>k\<close> (remote IP, remote port, protocol)
  that is not in the peer registry when the run starts and from which at least one of
  the frames comes, among frames from any other triples. Then the run completes, and
  the reads of the frames from \<open>k\<close> enqueue, through \<open>remote_address_seen\<close>, exactly one
  \<open>msg_connection_ready\<close> call over the whole run, however many these frames are; and
  after the run the read of any further receivable frame from \<open>k\<close> enqueues no
  \<open>msg_connection_ready\<close> call.
\<close>

theorem one_ready_event_per_peer:
  assumes bounded: "heap_bounded s"
      and frames: "\<forall>fr \<in> set frames. receivable s fr"
      and seen: "\<exists>fr \<in> set frames. frame_key pf s fr = Some k"
      and new: "conn_status s k = None"
  shows "\<exists>s'. read_all pf frames s = Inr s'
            \<and> ready_events_from pf k frames s = 1
            \<and> (\<forall>fr. receivable s' fr \<and> frame_key pf s' fr = Some k
                    \<longrightarrow> ready_events_from pf k [fr] s' = 0)"
  using assms
proof (induction frames arbitrary: s)
  case Nil
  then show ?case by simp
next
  case (Cons fr frames)
  obtain sock c os where fr: "fr = (sock, c, os)" by (cases fr)
  have rcv: "receivable s (sock, c, os)" using Cons.prems(2) fr by simp
  show ?case
  proof (cases "frame_key pf s (sock, c, os) = Some k")
    case True
    obtain s1 where s1: "read_from_socket pf os sock c s = Inr s1" "heap_bounded s1"
      "\<And>fr. frame_key pf s1 fr = frame_key pf s fr"
      "\<And>fr. receivable s1 fr = receivable s fr"
      "conn_status s1 k \<noteq> None"
      "length (filter is_ready_call (drop (length (immediate_callbacks s)) (immediate_callbacks s1))) = 1"
      using frame_step [OF Cons.prems(1) rcv, of pf] True Cons.prems(4) by metis
    have later: "\<forall>fr \<in> set frames. receivable s1 fr" using Cons.prems(2) s1(4) by simp
    from known_sender_run [OF s1(2) later s1(5), of pf] obtain s' where s':
      "read_all pf frames s1 = Inr s'" "heap_bounded s'" "conn_status s' k \<noteq> None"
      "ready_events_from pf k frames s1 = 0"
      by blast
    have "ready_events_from pf k [fr'] s' = 0" if "receivable s' fr'" for fr'
      using known_sender_run [OF s'(2) _ s'(3), of "[fr']" pf] that by auto
    then show ?thesis using s1 s' True fr by auto
  next
    case False
    obtain s1 where s1: "read_from_socket pf os sock c s = Inr s1" "heap_bounded s1"
      "\<And>fr. frame_key pf s1 fr = frame_key pf s fr"
      "\<And>fr. receivable s1 fr = receivable s fr"
      "conn_status s1 k = conn_status s k"
      using frame_step [OF Cons.prems(1) rcv, of pf] False by metis
    have later: "\<forall>fr \<in> set frames. receivable s1 fr" using Cons.prems(2) s1(4) by simp
    have seen1: "\<exists>fr \<in> set frames. frame_key pf s1 fr = Some k"
      using Cons.prems(3) False fr s1(3) by auto
    have new1: "conn_status s1 k = None" using s1(5) Cons.prems(4) by simp
    from Cons.IH [OF s1(2) later seen1 new1] obtain s' where
      "read_all pf frames s1 = Inr s'" "ready_events_from pf k frames s1 = 1"
      "\<forall>fr. receivable s' fr \<and> frame_key pf s' fr = Some k \<longrightarrow> ready_events_from pf k [fr] s' = 0"
      by blast
    then show ?thesis using s1 False fr by auto
  qed
qed

lemma example_frames:
  "heap_bounded example_state"
  "receivable example_state (3, 0, example_read)"
  "receivable example_state (3, 0, other_read)"
  "frame_key example_platform example_state (3, 0, example_read)
     = Some \<lparr>ip = 0x0100007F, port = 9000, addr_protocol_type = 2\<rparr>"
proof -
  show "heap_bounded example_state"
    by (auto simp: heap_bounded_def example_state_def split: if_splits)
  have hdr: "frame_header example_read = Some \<lparr>message_type = 0, num_packets = 1, packet_id = 0, hdr_reply_id = 0\<rparr>"
    "frame_header other_read = Some \<lparr>message_type = 0, num_packets = 1, packet_id = 0, hdr_reply_id = 0\<rparr>"
    by (simp_all add: frame_header_def example_read_def other_read_def wire_header_def be16_def)
  show "receivable example_state (3, 0, example_read)"
    by (simp add: receivable_def single_packet_frame_def hdr classify_def one_way_def)
      (simp add: example_read_def example_state_def)
  show "receivable example_state (3, 0, other_read)"
    by (simp add: receivable_def single_packet_frame_def hdr classify_def one_way_def)
      (simp add: example_read_def other_read_def example_state_def)
  show "frame_key example_platform example_state (3, 0, example_read)
     = Some \<lparr>ip = 0x0100007F, port = 9000, addr_protocol_type = 2\<rparr>"
    by (simp add: frame_key_def example_state_def example_read_def example_sockaddr_def
        example_conn_def ntohs_def example_platform_def bswap16_def)
qed

theorem one_ready_event_per_peer_witness:
  "heap_bounded example_state
   \<and> list_all (receivable example_state)
        [(3, 0, example_read), (3, 0, other_read), (3, 0, example_read), (3, 0, example_read)]
   \<and> (\<exists>fr \<in> set [(3, 0, example_read), (3, 0, other_read), (3, 0, example_read), (3, 0, example_read)].
         frame_key example_platform example_state fr
           = Some \<lparr>ip = 0x0100007F, port = 9000, addr_protocol_type = 2\<rparr>)
   \<and> conn_status example_state \<lparr>ip = 0x0100007F, port = 9000, addr_protocol_type = 2\<rparr> = None
   \<and> ready_events_from example_platform \<lparr>ip = 0x0100007F, port = 9000, addr_protocol_type = 2\<rparr>
         [(3, 0, example_read), (3, 0, other_read), (3, 0, example_read), (3, 0, example_read)]
         example_state = 1"
proof -
  let ?frames = "[(3, 0, example_read), (3, 0, other_read), (3, 0, example_read), (3, 0, example_read)]"
  let ?k = "\<lparr>ip = 0x0100007F, port = 9000, addr_protocol_type = 2\<rparr> :: Address"
  have h1: "heap_bounded example_state" by (rule example_frames)
  have h2: "\<forall>fr \<in> set ?frames. receivable example_state fr"
    by (simp add: example_frames)
  have h2': "list_all (receivable example_state) ?frames"
    by (simp add: example_frames)
  have h3: "\<exists>fr \<in> set ?frames. frame_key example_platform example_state fr = Some ?k"
    by (simp add: example_frames)
  have h4: "conn_status example_state ?k = None"
    by (simp add: example_state_def)
  show ?thesis
    using h1 h2' h3 h4 one_ready_event_per_peer [OF h1 h2 h3 h4] by blast
qed

section \<open>The dispatch phase\<close>

lemma flush_invoked_prefix':
  "flush cbs calls s = (called, r) \<Longrightarrow> prefix called calls"
proof (induction calls arbitrary: s called r)
  case Nil
  then show ?case by simp
next
  case (Cons call rest)
  from Cons.prems show ?case
    by (auto split: option.splits heap_obj.splits sum.splits prod.splits dest: Cons.IH)
qed

lemma flush_invoked_prefix: "prefix (fst (flush cbs calls s)) calls"
  using flush_invoked_prefix' [of cbs calls s] by (cases "flush cbs calls s") simp

lemma flush_invoked_all':
  "flush cbs calls s = (called, Inr s') \<Longrightarrow> called = calls"
proof (induction calls arbitrary: s called)
  case Nil
  then show ?case by simp
next
  case (Cons call rest)
  from Cons.prems show ?case
    by (auto split: option.splits heap_obj.splits sum.splits prod.splits dest: Cons.IH)
qed

lemma flush_invoked_all:
  "snd (flush cbs calls s) = Inr s' \<Longrightarrow> fst (flush cbs calls s) = calls"
  using flush_invoked_all' [of cbs calls s] by (cases "flush cbs calls s") simp

lemma grows_refl: "grows s s"
  by (simp add: grows_def)

lemma grows_trans: "grows s s1 \<Longrightarrow> grows s1 s2 \<Longrightarrow> grows s s2"
  by (auto simp: grows_def intro: prefix_order.trans)

lemma grows_free: "grows s (free p s)"
  by (simp add: grows_def free_def)

lemma grows_queue_eq:
  "init_done s' = init_done s \<Longrightarrow> immediate_callbacks s' = immediate_callbacks s \<Longrightarrow> grows s s'"
  by (simp add: grows_def)

lemma grows_append:
  "init_done s' = init_done s \<Longrightarrow> immediate_callbacks s' = immediate_callbacks s @ new \<Longrightarrow> grows s s'"
  by (simp add: grows_def)

lemma flush_grows:
  assumes "enqueue_only cbs" and "init_done s" and "flush cbs calls s = (called, Inr s')"
  shows "grows s s'"
  using assms(2,3)
proof (induction calls arbitrary: s called)
  case Nil
  then show ?case by (simp add: grows_refl)
next
  case (Cons call rest)
  from Cons.prems(2) obtain co s1 called' where
    co: "heap s (conn call) = Some (ConnObj co)"
    and s1: "cbs (callback co) (conn call) (event call) (data call) s = Inr s1"
    and rest: "flush cbs rest (case to_free call of None \<Rightarrow> s1 | Some p \<Rightarrow> free p s1) = (called', Inr s')"
    by (auto split: option.splits heap_obj.splits sum.splits prod.splits)
  let ?s2 = "case to_free call of None \<Rightarrow> s1 | Some p \<Rightarrow> free p s1"
  have g1: "grows s s1"
    using assms(1) Cons.prems(1) s1 unfolding enqueue_only_def by blast
  have g2: "grows s1 ?s2"
    by (auto simp: grows_refl grows_free split: option.splits)
  have "init_done ?s2" using g1 g2 Cons.prems(1) by (simp add: grows_def)
  from Cons.IH [OF this rest] g1 g2 show ?case
    by (blast intro: grows_trans)
qed

lemma flush_append:
  "flush cbs (xs @ ys) s =
     (case flush cbs xs s of
        (called1, Inl f) \<Rightarrow> (called1, Inl f)
      | (called1, Inr s1) \<Rightarrow> (case flush cbs ys s1 of (called2, r) \<Rightarrow> (called1 @ called2, r)))"
  by (induction xs arbitrary: s)
    (auto split: option.splits heap_obj.splits sum.splits prod.splits)

lemma send_callback_os_error_grows:
  "send_callback_os_error e c msg tf s = Inr s' \<Longrightarrow> grows s s'"
  by (auto simp: send_callback_os_error_ok Let_def grows_def)

lemma remote_address_seen_grows:
  "remote_address_seen c sa s = Inr s' \<Longrightarrow> grows s s'"
  by (auto simp: remote_address_seen_def Let_def send_callback_def grows_def
      split: option.splits heap_obj.splits)

lemma read_header_grows:
  "read_header pf os c s = Inr (r, s') \<Longrightarrow> grows s s'"
  by (auto simp: read_header_def Let_def grows_refl grows_queue_eq
      dest: send_callback_os_error_grows
      split: option.splits list.splits heap_obj.splits sum.splits)

lemma receive_packet_grows:
  assumes "receive_packet pf os c ev s = Inr s'"
  shows "grows s s'"
  using assms
  by (auto simp: receive_packet_def malloc_def Let_def grows_def send_callback_def
        send_callback_os_error_ok
      dest!: remote_address_seen_grows
      split: option.splits heap_obj.splits sum.splits)

lemma read_from_socket_grows:
  "read_from_socket pf os sock c s = Inr s' \<Longrightarrow> grows s s'"
  by (auto simp: read_from_socket_def Let_def
      dest: read_header_grows receive_packet_grows
      intro: grows_trans
      split: sum.splits prod.splits option.splits if_splits)

lemma read_ready_grows:
  "read_ready pf io idx s = Inr s' \<Longrightarrow> grows s s'"
proof (induction idx arbitrary: s)
  case Nil
  then show ?case by (simp add: grows_refl)
next
  case (Cons i rest)
  then show ?case
    by (auto split: if_splits sum.splits intro: grows_trans dest: read_from_socket_grows)
qed

lemma read_phase_grows:
  "read_phase pf io s = Inr s' \<Longrightarrow> grows s s'"
  by (auto simp: read_phase_def Let_def grows_refl grows_def
      dest!: read_ready_grows split: if_splits)

lemma init_if_needed_done: "init_done s \<Longrightarrow> init_if_needed s = s"
  by (simp add: init_if_needed_def)

lemma open_socket_grows:
  assumes "init_done s" and "open_socket pf os address ctx cb listening s = Inr s'"
  shows "grows s s'"
  using assms(2)
  by (cases rule: open_socket_cases [of pf os address ctx cb listening s])
    (auto simp: init_if_needed_done [OF assms(1)] assms(1) intro: grows_append)

lemma msg_send_grows:
  assumes "msg_send pf c d s = Inr s'"
  shows "grows s s'"
  using assms
  by (auto simp: msg_send_def set_header_def write_bytes_def set_sockaddr_for_conn_def grows_def
      split: sum.splits option.splits heap_obj.splits ptr.splits if_splits)

lemma flush_effect':
  "flush cbs calls s = (called, r) \<Longrightarrow> r = deliver_all cbs calls s"
proof (induction calls arbitrary: s called r)
  case Nil
  then show ?case by simp
next
  case (Cons call rest)
  from Cons.prems show ?case
    by (auto simp: deliver_def split: option.splits heap_obj.splits sum.splits prod.splits
        dest: Cons.IH)
qed

lemma flush_effect: "snd (flush cbs calls s) = deliver_all cbs calls s"
  using flush_effect' [of cbs calls s] by (cases "flush cbs calls s") simp

lemma deliver_all_append:
  "deliver_all cbs (xs @ ys) s =
     (case deliver_all cbs xs s of Inl f \<Rightarrow> Inl f | Inr s1 \<Rightarrow> deliver_all cbs ys s1)"
  by (induction xs arbitrary: s) (auto split: sum.splits)

lemma flush_trace_length:
  "(length pre < length (fst (flush cbs (pre @ call # post) s)))
     = (\<exists>mid co. deliver_all cbs pre s = Inr mid \<and> heap mid (conn call) = Some (ConnObj co))"
proof (induction pre arbitrary: s)
  case Nil
  show ?case
    by (auto split: option.splits heap_obj.splits sum.splits prod.splits)
next
  case (Cons p pre)
  show ?case
  proof (cases "deliver cbs p s")
    case (Inl f)
    then show ?thesis
      by (auto simp: deliver_def split: option.splits heap_obj.splits sum.splits prod.splits)
  next
    case (Inr s2)
    then obtain co :: msg_Conn and s1 where co: "heap s (conn p) = Some (ConnObj co)"
      and s1: "cbs (callback co) (conn p) (event p) (data p) s = Inr s1"
      and s2: "s2 = (case to_free p of None \<Rightarrow> s1 | Some q \<Rightarrow> free q s1)"
      by (auto simp: deliver_def split: option.splits heap_obj.splits sum.splits)
    have "length (fst (flush cbs ((p # pre) @ call # post) s))
            = Suc (length (fst (flush cbs (pre @ call # post) s2)))"
      using co s1 s2 by (simp split: prod.splits)
    then show ?thesis
      using Cons.IH [of s2] Inr by simp
  qed
qed

lemma deliver_grows:
  assumes "enqueue_only cbs" and "init_done s" and "deliver cbs call s = Inr s'"
  shows "grows s s'"
proof -
  from assms(3) obtain co :: msg_Conn and s1 where
    s1: "cbs (callback co) (conn call) (event call) (data call) s = Inr s1"
    and s': "s' = (case to_free call of None \<Rightarrow> s1 | Some p \<Rightarrow> free p s1)"
    by (auto simp: deliver_def split: option.splits heap_obj.splits sum.splits)
  have "grows s s1" using assms(1,2) s1 unfolding enqueue_only_def by blast
  moreover have "grows s1 s'" unfolding s' by (auto simp: grows_refl grows_free split: option.splits)
  ultimately show ?thesis by (rule grows_trans)
qed

lemma deliver_all_grows:
  assumes "enqueue_only cbs" and "init_done s" and "deliver_all cbs calls s = Inr s'"
  shows "grows s s'"
  using assms(2,3)
proof (induction calls arbitrary: s)
  case Nil
  then show ?case by (simp add: grows_refl)
next
  case (Cons call rest)
  from Cons.prems(2) obtain s1 where s1: "deliver cbs call s = Inr s1"
    and r: "deliver_all cbs rest s1 = Inr s'"
    by (auto split: sum.splits)
  have g: "grows s s1" by (rule deliver_grows [OF assms(1) Cons.prems(1) s1])
  then have "init_done s1" using Cons.prems(1) by (simp add: grows_def)
  from Cons.IH [OF this r] g show ?case by (blast intro: grows_trans)
qed

lemma enqueue_only_connecting: "enqueue_only connecting_callbacks"
  unfolding enqueue_only_def connecting_callbacks_def msg_connect_def
  by (blast intro: open_socket_grows)

lemmas dispatch_eval =
  deliver_def connecting_callbacks_def waiting_state_def example_state_def example_conn_def
  open_socket_eval parse_example

text \<open>
  C4. The dispatch phase of a tick, for every table of callbacks and every state. Its
  effect is the delivery, one after the other and first in first out, of exactly the
  calls that were queued when the phase began, each once, starting from the state with a
  fresh empty queue; the calls it reports as invoked are an initial segment of that
  queue, and the call at a position is among them exactly when all calls before it were
  delivered and its connection exists. Once the callback of a queued call has returned,
  whatever it has put in the queue, the rest of the flush delivers exactly the calls
  that were queued behind it when the phase began: a call enqueued from inside a
  callback is not part of this flush. When the phase completes it has invoked the whole
  old queue; the next \<open>msg_runloop\<close> keeps what the flush left in the queue at the front
  of its own queue and delivers that queue in order, so the calls left behind are
  delivered on the next tick that completes its reads. With callbacks that only enqueue,
  in an initialised library, whatever is in the queue after any number of the callbacks
  have run is still in the queue when the phase ends.
\<close>

theorem dispatch_is_fifo_and_defers_new_calls:
  "snd (dispatch_phase cbs s) = deliver_all cbs (immediate_callbacks s) (s\<lparr>immediate_callbacks := []\<rparr>)
   \<and> prefix (fst (dispatch_phase cbs s)) (immediate_callbacks s)
   \<and> (\<forall>pre call post.
         immediate_callbacks s = pre @ call # post \<longrightarrow>
           (length pre < length (fst (dispatch_phase cbs s)))
             = (\<exists>mid co. deliver_all cbs pre (s\<lparr>immediate_callbacks := []\<rparr>) = Inr mid
                        \<and> heap mid (conn call) = Some (ConnObj co)))
   \<and> (\<forall>pre call post mid mid'.
         immediate_callbacks s = pre @ call # post
         \<and> deliver_all cbs pre (s\<lparr>immediate_callbacks := []\<rparr>) = Inr mid
         \<and> deliver cbs call mid = Inr mid'
         \<longrightarrow> snd (dispatch_phase cbs s) = deliver_all cbs post mid')
   \<and> (\<forall>s'. snd (dispatch_phase cbs s) = Inr s' \<longrightarrow>
           fst (dispatch_phase cbs s) = immediate_callbacks s
         \<and> (\<forall>pf io t s1.
               read_phase pf io s' = Inr s1 \<longrightarrow>
                 prefix (immediate_callbacks s') (immediate_callbacks s1)
               \<and> snd (msg_runloop pf cbs io t s')
                   = deliver_all cbs (immediate_callbacks s1) (s1\<lparr>immediate_callbacks := []\<rparr>)
               \<and> prefix (fst (msg_runloop pf cbs io t s')) (immediate_callbacks s1)
               \<and> (\<forall>s2. snd (msg_runloop pf cbs io t s') = Inr s2 \<longrightarrow>
                     fst (msg_runloop pf cbs io t s') = immediate_callbacks s1))
         \<and> (enqueue_only cbs \<and> init_done s \<longrightarrow>
               (\<forall>pre post mid.
                   immediate_callbacks s = pre @ post
                   \<and> deliver_all cbs pre (s\<lparr>immediate_callbacks := []\<rparr>) = Inr mid
                   \<longrightarrow> prefix (immediate_callbacks mid) (immediate_callbacks s'))))"
proof -
  let ?s0 = "s\<lparr>immediate_callbacks := []\<rparr>"
  have eff: "snd (dispatch_phase cbs u) = deliver_all cbs (immediate_callbacks u) (u\<lparr>immediate_callbacks := []\<rparr>)" for u
    by (simp add: dispatch_phase_def flush_effect)
  have pre: "prefix (fst (dispatch_phase cbs u)) (immediate_callbacks u)" for u
    by (simp add: dispatch_phase_def flush_invoked_prefix)
  have all: "fst (dispatch_phase cbs u) = immediate_callbacks u" if "snd (dispatch_phase cbs u) = Inr u'" for u u'
    using that by (simp add: dispatch_phase_def flush_invoked_all)
  have len: "(length pre < length (fst (dispatch_phase cbs s)))
             = (\<exists>mid co. deliver_all cbs pre ?s0 = Inr mid \<and> heap mid (conn call) = Some (ConnObj co))"
    if "immediate_callbacks s = pre @ call # post" for pre call post
    using that flush_trace_length [of pre cbs call post ?s0] by (simp add: dispatch_phase_def)
  have rest: "snd (dispatch_phase cbs s) = deliver_all cbs post mid'"
    if "immediate_callbacks s = pre @ call # post \<and> deliver_all cbs pre ?s0 = Inr mid
        \<and> deliver cbs call mid = Inr mid'" for pre call post mid mid'
    using that by (simp add: eff deliver_all_append)
  have tick: "prefix (immediate_callbacks s') (immediate_callbacks s1)
               \<and> snd (msg_runloop pf cbs io t s')
                   = deliver_all cbs (immediate_callbacks s1) (s1\<lparr>immediate_callbacks := []\<rparr>)
               \<and> prefix (fst (msg_runloop pf cbs io t s')) (immediate_callbacks s1)
               \<and> (\<forall>s2. snd (msg_runloop pf cbs io t s') = Inr s2 \<longrightarrow>
                     fst (msg_runloop pf cbs io t s') = immediate_callbacks s1)"
    if rd: "read_phase pf io s' = Inr s1" for pf io t s' s1
  proof -
    have m: "msg_runloop pf cbs io t s' = dispatch_phase cbs s1"
      using rd by (simp add: msg_runloop_def)
    have "prefix (immediate_callbacks s') (immediate_callbacks s1)"
      using read_phase_grows [OF rd] by (simp add: grows_def)
    then show ?thesis
      unfolding m using eff [of s1] pre [of s1] all [of s1] by blast
  qed
  have kept: "prefix (immediate_callbacks mid) (immediate_callbacks s')"
    if fin: "snd (dispatch_phase cbs s) = Inr s'" and eo: "enqueue_only cbs \<and> init_done s"
      and sp: "immediate_callbacks s = pre @ post \<and> deliver_all cbs pre ?s0 = Inr mid"
    for s' pre post mid
  proof -
    have init0: "init_done ?s0" using eo by simp
    have "grows ?s0 mid" using deliver_all_grows [of cbs ?s0 pre mid] eo init0 sp by blast
    then have initm: "init_done mid" using init0 by (simp add: grows_def)
    have "deliver_all cbs post mid = Inr s'"
      using fin sp by (simp add: eff deliver_all_append)
    from deliver_all_grows [OF _ initm this] eo show ?thesis by (simp add: grows_def)
  qed
  show ?thesis
    using eff [of s] pre [of s] len rest all [of s] tick kept
    by (intro conjI allI impI) blast+
qed


theorem dispatch_is_fifo_and_defers_new_calls_witness:
  "enqueue_only connecting_callbacks \<and> init_done waiting_state
   \<and> immediate_callbacks
         (projr (deliver_all connecting_callbacks
                   [\<lparr>conn = 0, event = msg_listening, data = msg_no_data, to_free = None\<rparr>]
                   (waiting_state\<lparr>immediate_callbacks := []\<rparr>)))
       = [\<lparr>conn = 2, event = msg_connection_ready, data = msg_no_data, to_free = None\<rparr>]
   \<and> \<not> isl (snd (dispatch_phase connecting_callbacks waiting_state))
   \<and> fst (dispatch_phase connecting_callbacks waiting_state)
       = [\<lparr>conn = 0, event = msg_listening, data = msg_no_data, to_free = None\<rparr>,
          \<lparr>conn = 0, event = msg_message, data = msg_no_data, to_free = None\<rparr>]
   \<and> conns (projr (snd (dispatch_phase connecting_callbacks waiting_state))) = [0, 2, 3]
   \<and> immediate_callbacks (projr (snd (dispatch_phase connecting_callbacks waiting_state)))
       = [\<lparr>conn = 2, event = msg_connection_ready, data = msg_no_data, to_free = None\<rparr>]"
proof -
  let ?s0 = "waiting_state\<lparr>immediate_callbacks := []\<rparr>"
  note main = dispatch_is_fifo_and_defers_new_calls [of connecting_callbacks waiting_state]
  have h1: "enqueue_only connecting_callbacks" by (rule enqueue_only_connecting)
  have h2: "init_done waiting_state" by (simp add: waiting_state_def example_state_def)
  have q: "immediate_callbacks waiting_state
       = [\<lparr>conn = 0, event = msg_listening, data = msg_no_data, to_free = None\<rparr>,
          \<lparr>conn = 0, event = msg_message, data = msg_no_data, to_free = None\<rparr>]"
    by (simp add: waiting_state_def)
  have first: "\<not> isl (deliver_all connecting_callbacks
                   [\<lparr>conn = 0, event = msg_listening, data = msg_no_data, to_free = None\<rparr>] ?s0)
     \<and> immediate_callbacks
         (projr (deliver_all connecting_callbacks
                   [\<lparr>conn = 0, event = msg_listening, data = msg_no_data, to_free = None\<rparr>] ?s0))
       = [\<lparr>conn = 2, event = msg_connection_ready, data = msg_no_data, to_free = None\<rparr>]"
    by (simp add: dispatch_eval)
  have both: "\<not> isl (deliver_all connecting_callbacks (immediate_callbacks waiting_state) ?s0)
     \<and> conns (projr (deliver_all connecting_callbacks (immediate_callbacks waiting_state) ?s0)) = [0, 2, 3]
     \<and> immediate_callbacks (projr (deliver_all connecting_callbacks (immediate_callbacks waiting_state) ?s0))
         = [\<lparr>conn = 2, event = msg_connection_ready, data = msg_no_data, to_free = None\<rparr>]"
    unfolding q by (simp add: dispatch_eval)
  have eff: "snd (dispatch_phase connecting_callbacks waiting_state)
               = deliver_all connecting_callbacks (immediate_callbacks waiting_state) ?s0"
    using main by blast
  obtain s' where ds: "deliver_all connecting_callbacks (immediate_callbacks waiting_state) ?s0 = Inr s'"
    using both by (cases "deliver_all connecting_callbacks (immediate_callbacks waiting_state) ?s0") auto
  have s': "snd (dispatch_phase connecting_callbacks waiting_state) = Inr s'"
    using eff ds by simp
  have tr: "fst (dispatch_phase connecting_callbacks waiting_state) = immediate_callbacks waiting_state"
    using main s' by blast
  show ?thesis
    using h1 h2 first both eff tr q by simp
qed

section \<open>The receive buffer after the flush\<close>

lemma example_read_header:
  "read_header example_platform example_read 0 (example_state\<lparr>poll_fds := pf\<rparr>) =
     Inr (Some \<lparr>message_type = 0, num_packets = 1, packet_id = 0, hdr_reply_id = 0\<rparr>,
          example_state\<lparr>poll_fds := pf\<rparr>)"
proof -
  let ?t = "example_state\<lparr>poll_fds := pf\<rparr>"
  have c0: "heap ?t 0 = Some (ConnObj example_conn)" by (simp add: example_state_def)
  have co: "example_conn\<lparr>reply_id := 0\<rparr> = example_conn" by (simp add: example_conn_def)
  have "(heap ?t)(0 \<mapsto> ConnObj example_conn) = heap ?t"
    by (rule fun_upd_idem) (rule c0)
  then have same: "?t\<lparr>heap := (heap ?t)(0 \<mapsto> ConnObj (example_conn\<lparr>reply_id := 0\<rparr>))\<rparr> = ?t"
    by (simp add: co)
  show ?thesis
    using read_header_decodes [OF c0, where pf = example_platform and os = example_read
        and mt = 0 and np = 1 and pid = 0 and rid = 0 and payload = "[]"] same
    by (simp add: example_read_def)
qed

lemma example_read_fields:
  "recvfrom_ret example_read = Some (wire_header 0 1 0 0 @ [104, 105, 0], example_sockaddr)"
  by (simp add: example_read_def)

lemma take_recv_buffer_len:
  "length xs \<le> 32768 \<Longrightarrow> take recv_buffer_len xs = xs"
  by (simp add: recv_buffer_len_def)

lemmas tick_eval =
  msg_runloop_def read_phase_def dispatch_phase_def example_tick_def Let_def POLLIN_def
  example_state_fields example_platform_fields example_read_fields read_from_socket_def
  example_read_header classify_def one_way_def request_def reply_def
  receive_packet_def malloc_def remote_address_seen_def send_callback_def idle_callbacks_def
  take_recv_buffer_len length_wire_header header_len_def msg_no_data_def

text \<open>
  C6 fails on the code. One tick: the registered socket is readable and delivers one
  one-way frame; the callbacks do nothing. The read path allocates the receive buffer
  (heap block 2) and enqueues the message call with \<open>to_free = NULL\<close>; the flush invokes
  the connection-ready call and the message call, whose payload points into block 2, and
  frees only what \<open>to_free\<close> names. After \<open>msg_runloop\<close> has returned, with the queue
  empty, block 2 is still allocated.
\<close>

theorem received_buffer_outlives_flush:
  "fst (msg_runloop example_platform idle_callbacks example_tick 0 example_state)
     = [\<lparr>conn = 0, event = msg_connection_ready, data = msg_no_data, to_free = None\<rparr>,
        \<lparr>conn = 0, event = msg_message, data = \<lparr>num_bytes = 3, bytes = Ptr 2 8\<rparr>, to_free = None\<rparr>]
   \<and> \<not> isl (snd (msg_runloop example_platform idle_callbacks example_tick 0 example_state))
   \<and> immediate_callbacks (projr (snd (msg_runloop example_platform idle_callbacks example_tick 0 example_state))) = []
   \<and> heap (projr (snd (msg_runloop example_platform idle_callbacks example_tick 0 example_state))) 2
       = Some (Buf (map Some (wire_header 0 1 0 0 @ [104, 105, 0]) @ replicate (recv_buffer_len - 11) None))"
  by (simp add: tick_eval) (simp add: recv_buffer_len_def)

section \<open>The functions without a body\<close>

text \<open>
  C10. \<open>msg_unlisten\<close> and \<open>msg_get\<close> are no-ops: for every connection, payload, reply
  context and state they return the state they were given, so the registered set
  (\<open>conns\<close>, \<open>poll_fds\<close>), the peer registry, the queue of pending calls and the record of
  system calls are all what they were.
\<close>

theorem msg_unlisten_msg_get_noop:
  "msg_unlisten c s = s \<and> msg_get c d reply_context s = s
   \<and> conns (msg_unlisten c s) = conns s \<and> poll_fds (msg_unlisten c s) = poll_fds s
   \<and> conn_status (msg_unlisten c s) = conn_status s
   \<and> immediate_callbacks (msg_unlisten c s) = immediate_callbacks s
   \<and> sys_trace (msg_unlisten c s) = sys_trace s
   \<and> conns (msg_get c d reply_context s) = conns s
   \<and> poll_fds (msg_get c d reply_context s) = poll_fds s
   \<and> conn_status (msg_get c d reply_context s) = conn_status s
   \<and> immediate_callbacks (msg_get c d reply_context s) = immediate_callbacks s
   \<and> sys_trace (msg_get c d reply_context s) = sys_trace s"
  by (simp add: msg_unlisten_def msg_get_def)

end
